theory Spec2Isabelle
  imports Complex_Main
begin

section \<open>Data model (types.ts)\<close>

text \<open>
  The interfaces of \<^verbatim>\<open>types.ts\<close> become records. Field names carry a short prefix since
  several interfaces share the names \<^verbatim>\<open>id\<close>, \<^verbatim>\<open>role\<close>, \<^verbatim>\<open>title\<close> and \<^verbatim>\<open>text\<close>.
  An optional field (\<^verbatim>\<open>f?: T\<close>) is an \<open>option\<close>. JavaScript numbers that the program only
  stores and passes on (sampling parameters) are rationals. Strings are lists of 8-bit
  characters; text outside ASCII is read as its UTF-8 bytes.
\<close>

datatype MessageRole = USER | MODEL | SYSTEM | TOOL

record GroundingSource =
  src_uri :: "string option"
  src_title :: "string option"

record ChatMessage =
  msg_id :: string
  msg_role :: MessageRole
  msg_content :: string
  msg_imageUrls :: "string list option"
  msg_groundingSources :: "GroundingSource list option"

record TranscriptionMessage =
  tr_id :: string
  tr_role :: MessageRole
  tr_text :: string
  tr_isFinal :: bool

datatype HarmCategory =
  HARM_CATEGORY_HARASSMENT | HARM_CATEGORY_HATE_SPEECH
  | HARM_CATEGORY_SEXUALLY_EXPLICIT | HARM_CATEGORY_DANGEROUS_CONTENT

datatype HarmBlockThreshold =
  BLOCK_NONE | BLOCK_ONLY_HIGH | BLOCK_MEDIUM_AND_ABOVE | BLOCK_LOW_AND_ABOVE
  | HARM_BLOCK_THRESHOLD_UNSPECIFIED

record SafetySetting =
  category :: HarmCategory
  threshold :: HarmBlockThreshold

record ChatSession =
  chat_id :: string
  chat_title :: string
  chat_messages :: "ChatMessage list"
  chat_systemPrompt :: string
  chat_temperature :: "rat option"
  chat_topK :: "rat option"
  chat_topP :: "rat option"
  chat_safetySettings :: "SafetySetting list option"
  chat_maxOutputTokens :: "rat option"
  chat_stopSequences :: "string list option"
  chat_useGoogleSearch :: "bool option"
  chat_pinned :: "bool option"
  chat_model :: string

record Folder =
  folder_id :: string
  folder_name :: string
  folder_chatIds :: "string list"
  folder_isOpen :: bool

section \<open>JavaScript helpers\<close>

text \<open>A thrown value: an \<^verbatim>\<open>Error\<close> instance with its name and message, or anything else.\<close>

datatype js_error = JsError (err_name: string) (err_message: string) | JsOther

text \<open>Truthiness of an optional string: defined and not empty.\<close>

definition truthy :: "string option \<Rightarrow> bool" where
  "truthy x = (case x of None \<Rightarrow> False | Some s \<Rightarrow> s \<noteq> [])"

text \<open>\<^verbatim>\<open>Date.now().toString()\<close>: the decimal digits of a millisecond count.\<close>

definition digitChar :: "nat \<Rightarrow> char" where
  "digitChar d = ''0123456789'' ! d"

fun toString :: "nat \<Rightarrow> string" where
  "toString n =
     (if n < 10 then [digitChar n] else toString (n div 10) @ [digitChar (n mod 10)])"

declare toString.simps [simp del]

text \<open>
  \<^verbatim>\<open>String.prototype.trim\<close> strips white space and line terminators from both ends. The
  ones in ASCII are single bytes: tab, line feed, vertical tab, form feed, carriage return
  and space.
\<close>

definition isWhiteSpace :: "char \<Rightarrow> bool" where
  "isWhiteSpace c = (c \<in> set [CHR 0x09, CHR 0x0A, CHR 0x0B, CHR 0x0C, CHR 0x0D, CHR 0x20])"

text \<open>
  The others, as their UTF-8 bytes: U+00A0, U+1680, U+2000 to U+200A, U+2028, U+2029,
  U+202F, U+205F, U+3000 and U+FEFF.
\<close>

definition wideSpaces :: "string list" where
  "wideSpaces =
     [[CHR 0xC2, CHR 0xA0], [CHR 0xE1, CHR 0x9A, CHR 0x80],
      [CHR 0xE2, CHR 0x80, CHR 0x80], [CHR 0xE2, CHR 0x80, CHR 0x81],
      [CHR 0xE2, CHR 0x80, CHR 0x82], [CHR 0xE2, CHR 0x80, CHR 0x83],
      [CHR 0xE2, CHR 0x80, CHR 0x84], [CHR 0xE2, CHR 0x80, CHR 0x85],
      [CHR 0xE2, CHR 0x80, CHR 0x86], [CHR 0xE2, CHR 0x80, CHR 0x87],
      [CHR 0xE2, CHR 0x80, CHR 0x88], [CHR 0xE2, CHR 0x80, CHR 0x89],
      [CHR 0xE2, CHR 0x80, CHR 0x8A], [CHR 0xE2, CHR 0x80, CHR 0xA8],
      [CHR 0xE2, CHR 0x80, CHR 0xA9], [CHR 0xE2, CHR 0x80, CHR 0xAF],
      [CHR 0xE2, CHR 0x81, CHR 0x9F], [CHR 0xE3, CHR 0x80, CHR 0x80],
      [CHR 0xEF, CHR 0xBB, CHR 0xBF]]"

text \<open>
  The number of bytes of the white-space character that a string starts with, 0 if it
  starts with none; \<open>wide\<close> lists the multi-byte ones.
\<close>

definition spaceWidth :: "string list \<Rightarrow> string \<Rightarrow> nat" where
  "spaceWidth wide s =
     (case s of
        [] \<Rightarrow> 0
      | c # cs \<Rightarrow>
          if isWhiteSpace c then 1
          else (case find (\<lambda>w. take (length w) s = w) wide of
                  Some w \<Rightarrow> length w
                | None \<Rightarrow> 0))"

function stripSpaces :: "string list \<Rightarrow> string \<Rightarrow> string" where
  "stripSpaces wide s =
     (if spaceWidth wide s = 0 then s else stripSpaces wide (drop (spaceWidth wide s) s))"
  by pat_completeness auto
termination
  by (relation "measure (\<lambda>p. length (snd p))") (auto simp: spaceWidth_def split: list.splits)

declare stripSpaces.simps [simp del]

text \<open>The end of the string is stripped on the reversed string, with the reversed encodings.\<close>

definition trim :: "string \<Rightarrow> string" where
  "trim s = rev (stripSpaces (map rev wideSpaces) (rev (stripSpaces wideSpaces s)))"

section \<open>Application state and the session store (App component)\<close>

record app_state =
  chatSessions :: "ChatSession list"
  folders :: "Folder list"
  activeChatId :: "string option"
  isLoading :: bool
  isSidebarOpen :: bool
  isDarkMode :: bool

text \<open>The initial values of the \<^verbatim>\<open>useState\<close> hooks.\<close>

definition initialState :: app_state where
  "initialState =
     \<lparr>chatSessions = [], folders = [], activeChatId = None, isLoading = False,
      isSidebarOpen = False, isDarkMode = True\<rparr>"

text \<open>\<^verbatim>\<open>chatSessions.find(session => session.id === activeChatId)\<close>\<close>

definition activeChat :: "app_state \<Rightarrow> ChatSession option" where
  "activeChat s = find (\<lambda>session. Some (chat_id session) = activeChatId s) (chatSessions s)"

definition defaultSystemPrompt :: string where
  \<open>defaultSystemPrompt = ''You are a helpful and friendly AI assistant named Connect Ai. Your goal is to provide accurate and concise information. Format your responses using Markdown for better readability, including code blocks for code snippets. If you are asked "who made you?", "who created you?", or any similar question about your origin, you must say that you were created by a Moroccan developer named Othman&leo, an African technology team. You must provide their contact email: othmanalif10@gmail.com. You cannot create images, videos, or audio. If a user asks you to generate any media, you must politely inform them that you are a text-based AI and do not have this capability. You must not say that you were created by Google or that you are based on Gemini.''\<close>

definition defaultSafetySettings :: "SafetySetting list" where
  "defaultSafetySettings =
     [\<lparr>category = HARM_CATEGORY_HARASSMENT, threshold = BLOCK_MEDIUM_AND_ABOVE\<rparr>,
      \<lparr>category = HARM_CATEGORY_HATE_SPEECH, threshold = BLOCK_MEDIUM_AND_ABOVE\<rparr>,
      \<lparr>category = HARM_CATEGORY_SEXUALLY_EXPLICIT, threshold = BLOCK_MEDIUM_AND_ABOVE\<rparr>,
      \<lparr>category = HARM_CATEGORY_DANGEROUS_CONTENT, threshold = BLOCK_MEDIUM_AND_ABOVE\<rparr>]"

text \<open>
  \<^verbatim>\<open>updateActiveChat\<close>: the updater is applied to every session whose id is the active id,
  all other sessions are passed through. The active id is the one captured by the closure,
  so it is a parameter.
\<close>

definition updateActiveChat ::
  "string option \<Rightarrow> (ChatSession \<Rightarrow> ChatSession) \<Rightarrow> ChatSession list \<Rightarrow> ChatSession list" where
  "updateActiveChat activeId updater prevSessions =
     map (\<lambda>session. if Some (chat_id session) = activeId then updater session else session)
       prevSessions"

text \<open>The session that \<^verbatim>\<open>handleNewChat\<close> creates at clock reading \<open>now\<close>.\<close>

definition newChat :: "nat \<Rightarrow> ChatSession" where
  "newChat now =
     \<lparr>chat_id = toString now, chat_title = ''New Conversation'', chat_messages = [],
      chat_systemPrompt = defaultSystemPrompt, chat_temperature = Some (7 / 10),
      chat_topK = Some 40, chat_topP = Some (95 / 100),
      chat_safetySettings = Some defaultSafetySettings, chat_maxOutputTokens = Some 2048,
      chat_stopSequences = Some [], chat_useGoogleSearch = Some False,
      chat_pinned = Some False, chat_model = ''gemini-2.5-flash''\<rparr>"

definition handleNewChat :: "nat \<Rightarrow> app_state \<Rightarrow> app_state" where
  "handleNewChat now s =
     s\<lparr>chatSessions := newChat now # chatSessions s,
       activeChatId := Some (chat_id (newChat now)),
       isSidebarOpen := False\<rparr>"

text \<open>
  \<^verbatim>\<open>handleDeleteChat\<close>; \<open>confirmed\<close> is the answer of \<^verbatim>\<open>window.confirm\<close>. The state updates
  of one handler run are applied in the order they were queued.
\<close>

definition handleDeleteChat :: "nat \<Rightarrow> bool \<Rightarrow> string \<Rightarrow> app_state \<Rightarrow> app_state" where
  "handleDeleteChat now confirmed chatId s =
     (if confirmed then
        let remainingChats = filter (\<lambda>c. chat_id c \<noteq> chatId) (chatSessions s);
            s1 = s\<lparr>chatSessions := remainingChats,
                   folders := map (\<lambda>f. f\<lparr>folder_chatIds :=
                                filter (\<lambda>i. i \<noteq> chatId) (folder_chatIds f)\<rparr>) (folders s)\<rparr>
        in if activeChatId s = Some chatId then
             (case remainingChats of
                c # _ \<Rightarrow> s1\<lparr>activeChatId := Some (chat_id c)\<rparr>
              | [] \<Rightarrow> handleNewChat now (s1\<lparr>activeChatId := None\<rparr>))
           else s1
      else s)"

definition handleRenameChat :: "string \<Rightarrow> string \<Rightarrow> app_state \<Rightarrow> app_state" where
  "handleRenameChat chatId newTitle s =
     (if trim newTitle = [] then s
      else s\<lparr>chatSessions :=
             map (\<lambda>session. if chat_id session = chatId
                             then session\<lparr>chat_title := trim newTitle\<rparr> else session)
               (chatSessions s)\<rparr>)"

definition handleTogglePinChat :: "string \<Rightarrow> app_state \<Rightarrow> app_state" where
  "handleTogglePinChat chatId s =
     s\<lparr>chatSessions :=
         map (\<lambda>c. if chat_id c = chatId
                   then c\<lparr>chat_pinned := Some (\<not> (chat_pinned c = Some True))\<rparr> else c)
           (chatSessions s)\<rparr>"

subsection \<open>Folders\<close>

definition handleCreateFolder :: "nat \<Rightarrow> string \<Rightarrow> app_state \<Rightarrow> app_state" where
  "handleCreateFolder now name s =
     s\<lparr>folders := \<lparr>folder_id = toString now, folder_name = name, folder_chatIds = [],
                    folder_isOpen = True\<rparr> # folders s\<rparr>"

definition handleDeleteFolder :: "string \<Rightarrow> app_state \<Rightarrow> app_state" where
  "handleDeleteFolder folderId s =
     s\<lparr>folders := filter (\<lambda>f. folder_id f \<noteq> folderId) (folders s)\<rparr>"

definition handleRenameFolder :: "string \<Rightarrow> string \<Rightarrow> app_state \<Rightarrow> app_state" where
  "handleRenameFolder folderId newName s =
     s\<lparr>folders := map (\<lambda>f. if folder_id f = folderId then f\<lparr>folder_name := newName\<rparr> else f)
                    (folders s)\<rparr>"

definition handleToggleFolder :: "string \<Rightarrow> app_state \<Rightarrow> app_state" where
  "handleToggleFolder folderId s =
     s\<lparr>folders := map (\<lambda>f. if folder_id f = folderId
                            then f\<lparr>folder_isOpen := \<not> folder_isOpen f\<rparr> else f)
                    (folders s)\<rparr>"

text \<open>
  The updater that \<^verbatim>\<open>handleMoveChatToFolder\<close> passes to \<^verbatim>\<open>setFolders\<close>. The target is
  \<^verbatim>\<open>string | null\<close>; \<^verbatim>\<open>if (folderId)\<close> also rejects the empty string.
\<close>

definition moveChatToFolder :: "string \<Rightarrow> string option \<Rightarrow> Folder list \<Rightarrow> Folder list" where
  "moveChatToFolder chatId folderId prev =
     (let updatedFolders =
            map (\<lambda>f. f\<lparr>folder_chatIds := filter (\<lambda>i. i \<noteq> chatId) (folder_chatIds f)\<rparr>) prev
      in if truthy folderId then
           map (\<lambda>f. if Some (folder_id f) = folderId
                     then f\<lparr>folder_chatIds := chatId # folder_chatIds f\<rparr> else f)
             updatedFolders
         else updatedFolders)"

definition handleMoveChatToFolder :: "string \<Rightarrow> string option \<Rightarrow> app_state \<Rightarrow> app_state" where
  "handleMoveChatToFolder chatId folderId s =
     s\<lparr>folders := moveChatToFolder chatId folderId (folders s)\<rparr>"

text \<open>A run of move operations, each a session id and its target.\<close>

fun moveAll :: "(string \<times> string option) list \<Rightarrow> Folder list \<Rightarrow> Folder list" where
  "moveAll [] fs = fs"
| "moveAll ((chatId, folderId) # ops) fs = moveAll ops (moveChatToFolder chatId folderId fs)"

text \<open>The folders whose member list holds a session id.\<close>

definition foldersOf :: "string \<Rightarrow> Folder list \<Rightarrow> Folder list" where
  "foldersOf chatId fs = filter (\<lambda>f. chatId \<in> set (folder_chatIds f)) fs"

section \<open>The generation service (services/geminiService.ts)\<close>

text \<open>
  What the program reads of a streamed response packet: its text, and the list found at
  \<^verbatim>\<open>candidates?.[0]?.groundingMetadata?.groundingChunks\<close>.
\<close>

record web_ref =
  web_uri :: "string option"
  web_title :: "string option"

record grounding_chunk =
  gc_web :: "web_ref option"

record GenerateContentResponse =
  resp_text :: "string option"
  resp_groundingChunks :: "grounding_chunk list option"

datatype Part = TextPart string | InlineDataPart string string

definition fileToGenerativePart :: "string \<Rightarrow> string \<Rightarrow> Part" where
  "fileToGenerativePart base64 mimeType = InlineDataPart base64 mimeType"

text \<open>
  The stream that the vendor SDK returns is a list of packets and an optional error thrown
  after them. Each packet comes with the value that \<^verbatim>\<open>signal?.aborted\<close> has when the packet
  is received.
\<close>

type_synonym sdk_stream = "(bool \<times> GenerateContentResponse) list \<times> js_error option"

type_synonym chunk_stream = "GenerateContentResponse list \<times> js_error option"

definition isAbortError :: "js_error \<Rightarrow> bool" where
  "isAbortError e = (case e of JsError n m \<Rightarrow> n = ''AbortError'' | JsOther \<Rightarrow> False)"

definition getAiClient :: "string option \<Rightarrow> js_error + unit" where
  "getAiClient apiKey =
     (if \<not> truthy apiKey then
        Inl (JsError ''Error'' ''Gemini API key is not configured. Please ensure the API_KEY environment variable is set.'')
      else Inr ())"

record Chat =
  cfg_model :: string
  cfg_systemInstruction :: string
  cfg_temperature :: rat
  cfg_topK :: "rat option"
  cfg_topP :: "rat option"
  cfg_safetySettings :: "SafetySetting list option"
  cfg_maxOutputTokens :: "rat option"
  cfg_stopSequences :: "string list option"
  cfg_googleSearch :: bool
  cfg_history :: "(MessageRole \<times> string) list"

definition initializeChat ::
  "string option \<Rightarrow> string \<Rightarrow> string \<Rightarrow> ChatMessage list \<Rightarrow> rat option \<Rightarrow> bool option \<Rightarrow>
   rat option \<Rightarrow> rat option \<Rightarrow> SafetySetting list option \<Rightarrow> rat option \<Rightarrow>
   string list option \<Rightarrow> js_error + Chat" where
  "initializeChat apiKey model systemPrompt history temperature useGoogleSearch topK topP
     safetySettings maxOutputTokens stopSequences =
     (case getAiClient apiKey of
        Inl e \<Rightarrow> Inl e
      | Inr ai \<Rightarrow>
          Inr \<lparr>cfg_model = model,
               cfg_systemInstruction =
                 (if systemPrompt \<noteq> [] then systemPrompt else defaultSystemPrompt),
               cfg_temperature = (case temperature of Some t \<Rightarrow> t | None \<Rightarrow> 7 / 10),
               cfg_topK = topK, cfg_topP = topP, cfg_safetySettings = safetySettings,
               cfg_maxOutputTokens = maxOutputTokens,
               cfg_stopSequences =
                 (case stopSequences of
                    Some ss \<Rightarrow> if ss \<noteq> [] then Some ss else None
                  | None \<Rightarrow> None),
               cfg_googleSearch = (useGoogleSearch = Some True),
               cfg_history = map (\<lambda>msg. (msg_role msg, msg_content msg)) history\<rparr>)"

text \<open>
  \<^verbatim>\<open>wrappedStream\<close>: packets are passed on until one arrives with the signal aborted; then
  the generator ends without an error, and what the SDK stream would do later is never seen.
\<close>

fun wrappedStream ::
  "(bool \<times> GenerateContentResponse) list \<Rightarrow> js_error option \<Rightarrow> chunk_stream" where
  "wrappedStream [] fin = ([], fin)"
| "wrappedStream ((aborted, chunk) # rest) fin =
     (if aborted then ([], None)
      else (chunk # fst (wrappedStream rest fin), snd (wrappedStream rest fin)))"

text \<open>The \<^verbatim>\<open>parts\<close> array of a request: the images, then the prompt text.\<close>

definition requestParts :: "string \<Rightarrow> (string \<times> string) list option \<Rightarrow> Part list" where
  "requestParts prompt images =
     (case images of
        Some imgs \<Rightarrow> map (\<lambda>img. fileToGenerativePart (fst img) (snd img)) imgs
      | None \<Rightarrow> []) @ [TextPart prompt]"

text \<open>
  \<^verbatim>\<open>streamResponse\<close>. The first component of the result lists the requests handed to
  \<^verbatim>\<open>chat.sendMessageStream\<close>; the second is the thrown error or the returned generator.
  \<open>abortedAtStart\<close> is the value of \<^verbatim>\<open>signal?.aborted\<close> on entry.
\<close>

definition streamResponse ::
  "(Part list \<Rightarrow> js_error + sdk_stream) \<Rightarrow> string \<Rightarrow> (string \<times> string) list option \<Rightarrow> bool \<Rightarrow>
   Part list list \<times> (js_error + chunk_stream)" where
  "streamResponse sendMessageStream prompt images abortedAtStart =
     (if abortedAtStart then ([], Inr ([], None))
      else
        let parts = requestParts prompt images
        in (case sendMessageStream parts of
              Inl e \<Rightarrow>
                ([parts],
                 if isAbortError e then Inr ([], None)
                 else Inl (JsError ''Error'' ''Failed to get response from AI. Please check your API key and network connection.''))
            | Inr stream \<Rightarrow> ([parts], Inr (wrappedStream (fst stream) (snd stream)))))"

section \<open>The message reducer and the generation controller (App component)\<close>

text \<open>
  The three updates that \<^verbatim>\<open>submitPrompt\<close> applies to the message list have one shape:
  \<^verbatim>\<open>chat.messages.map(m => m.id === modelMessage.id ? { ...m, field: value } : m)\<close>.
  The field is the content (the text accumulated so far, or the error block) or the
  grounding sources.
\<close>

datatype patch = SetContent string | SetSources "GroundingSource list"

fun patchMessage :: "patch \<Rightarrow> ChatMessage \<Rightarrow> ChatMessage" where
  "patchMessage (SetContent c) m = m\<lparr>msg_content := c\<rparr>"
| "patchMessage (SetSources sources) m = m\<lparr>msg_groundingSources := Some sources\<rparr>"

definition applyPatch :: "string \<Rightarrow> patch \<Rightarrow> ChatMessage list \<Rightarrow> ChatMessage list" where
  "applyPatch messageId p messages =
     map (\<lambda>m. if msg_id m = messageId then patchMessage p m else m) messages"

definition patchActiveChat ::
  "string option \<Rightarrow> string \<Rightarrow> patch \<Rightarrow> ChatSession list \<Rightarrow> ChatSession list" where
  "patchActiveChat activeId messageId p sessions =
     updateActiveChat activeId
       (\<lambda>chat. chat\<lparr>chat_messages := applyPatch messageId p (chat_messages chat)\<rparr>) sessions"

text \<open>
  One turn of the \<^verbatim>\<open>for await\<close> loop: the packet becomes the final packet; a truthy text
  is appended to \<^verbatim>\<open>fullResponse\<close>, which is written to the message.
\<close>

definition appendChunk ::
  "string option \<Rightarrow> string \<Rightarrow> GenerateContentResponse \<Rightarrow>
   string \<times> GenerateContentResponse option \<times> ChatSession list \<Rightarrow>
   string \<times> GenerateContentResponse option \<times> ChatSession list" where
  "appendChunk activeId messageId chunk acc =
     (case acc of (fullResponse, finalResponsePacket, sessions) \<Rightarrow>
        (case resp_text chunk of
           Some chunkText \<Rightarrow>
             if chunkText \<noteq> [] then
               (fullResponse @ chunkText, Some chunk,
                patchActiveChat activeId messageId (SetContent (fullResponse @ chunkText)) sessions)
             else (fullResponse, Some chunk, sessions)
         | None \<Rightarrow> (fullResponse, Some chunk, sessions)))"

fun consumeStream ::
  "string option \<Rightarrow> string \<Rightarrow> GenerateContentResponse list \<Rightarrow>
   string \<times> GenerateContentResponse option \<times> ChatSession list \<Rightarrow>
   string \<times> GenerateContentResponse option \<times> ChatSession list" where
  "consumeStream activeId messageId [] acc = acc"
| "consumeStream activeId messageId (chunk # chunks) acc =
     consumeStream activeId messageId chunks (appendChunk activeId messageId chunk acc)"

definition extractSources :: "grounding_chunk list \<Rightarrow> GroundingSource list" where
  "extractSources groundingChunks =
     filter (\<lambda>source. truthy (src_uri source))
       (map (\<lambda>chunk. \<lparr>src_uri = (case gc_web chunk of Some w \<Rightarrow> web_uri w | None \<Rightarrow> None),
                       src_title = (case gc_web chunk of Some w \<Rightarrow> web_title w | None \<Rightarrow> None)\<rparr>)
          groundingChunks)"

text \<open>The statements after the loop: sources of the final packet are attached, if it has any.\<close>

definition attachSources ::
  "string option \<Rightarrow> string \<Rightarrow> GenerateContentResponse option \<Rightarrow> ChatSession list \<Rightarrow>
   ChatSession list" where
  "attachSources activeId messageId finalResponsePacket sessions =
     (case finalResponsePacket of
        None \<Rightarrow> sessions
      | Some packet \<Rightarrow>
          (case resp_groundingChunks packet of
             None \<Rightarrow> sessions
           | Some groundingChunks \<Rightarrow>
               patchActiveChat activeId messageId (SetSources (extractSources groundingChunks))
                 sessions))"

definition errorContent :: "js_error \<Rightarrow> string" where
  "errorContent e =
     ''**Error:** I seem to be having trouble connecting. Please check your connection and API key, then try again.''
     @ [CHR 0x0A, CHR 0x0A] @ ''> ''
     @ (case e of JsError n m \<Rightarrow> m | JsOther \<Rightarrow> ''An unknown error occurred.'')"

text \<open>The \<^verbatim>\<open>catch\<close> block of \<^verbatim>\<open>submitPrompt\<close>.\<close>

definition catchBlock ::
  "string option \<Rightarrow> string \<Rightarrow> js_error \<Rightarrow> ChatSession list \<Rightarrow> ChatSession list" where
  "catchBlock activeId messageId e sessions =
     (if \<not> isAbortError e
      then patchActiveChat activeId messageId (SetContent (errorContent e)) sessions
      else sessions)"

text \<open>
  What one call of \<^verbatim>\<open>submitPrompt\<close> meets outside the program: the clock, the API key, the
  state of the abort signal when \<^verbatim>\<open>streamResponse\<close> starts, and the answer of the SDK to
  the request.
\<close>

record gen_env =
  env_now :: nat
  env_apiKey :: "string option"
  env_abortedAtStart :: bool
  env_sendMessageStream :: "Part list \<Rightarrow> js_error + sdk_stream"

definition modelMessage :: "nat \<Rightarrow> ChatMessage" where
  "modelMessage now =
     \<lparr>msg_id = toString (now + 1), msg_role = MODEL, msg_content = [],
      msg_imageUrls = None, msg_groundingSources = Some []\<rparr>"

text \<open>The sessions once the placeholder has been appended to the history (line 267).\<close>

definition withPlaceholder ::
  "nat \<Rightarrow> ChatMessage list option \<Rightarrow> ChatSession \<Rightarrow> app_state \<Rightarrow> ChatSession list" where
  "withPlaceholder now history chat0 s =
     (let currentHistory = (case history of Some h \<Rightarrow> h | None \<Rightarrow> chat_messages chat0)
      in updateActiveChat (activeChatId s)
           (\<lambda>chat. chat\<lparr>chat_messages := currentHistory @ [modelMessage now]\<rparr>)
           (chatSessions s))"

text \<open>The body of the \<^verbatim>\<open>try\<close> block with its \<^verbatim>\<open>catch\<close>, on the session list.\<close>

definition tryBlock ::
  "string option \<Rightarrow> string \<Rightarrow> js_error + chunk_stream \<Rightarrow> ChatSession list \<Rightarrow> ChatSession list" where
  "tryBlock activeId messageId response sessions =
     (case response of
        Inl e \<Rightarrow> catchBlock activeId messageId e sessions
      | Inr stream \<Rightarrow>
          (case consumeStream activeId messageId (fst stream) ([], None, sessions) of
             (fullResponse, finalResponsePacket, sessions') \<Rightarrow>
               (case snd stream of
                  Some e \<Rightarrow> catchBlock activeId messageId e sessions'
                | None \<Rightarrow> attachSources activeId messageId finalResponsePacket sessions')))"

text \<open>
  \<^verbatim>\<open>submitPrompt\<close>. The result is the state once the call has settled and the error the
  call rejects with, if any. \<^verbatim>\<open>initializeChat\<close> is called before the \<^verbatim>\<open>try\<close> block.
\<close>

definition submitPrompt ::
  "gen_env \<Rightarrow> string \<Rightarrow> (string \<times> string) list option \<Rightarrow> ChatMessage list option \<Rightarrow>
   app_state \<Rightarrow> app_state \<times> js_error option" where
  "submitPrompt env prompt images history s =
     (case activeChat s of
        None \<Rightarrow> (s, None)
      | Some chat0 \<Rightarrow>
          if isLoading s then (s, None)
          else
            let currentHistory = (case history of Some h \<Rightarrow> h | None \<Rightarrow> chat_messages chat0);
                messageId = msg_id (modelMessage (env_now env));
                s1 = s\<lparr>isLoading := True,
                       chatSessions := withPlaceholder (env_now env) history chat0 s\<rparr>
            in (case initializeChat (env_apiKey env) (chat_model chat0)
                       (chat_systemPrompt chat0) currentHistory (chat_temperature chat0)
                       (chat_useGoogleSearch chat0) (chat_topK chat0) (chat_topP chat0)
                       (chat_safetySettings chat0) (chat_maxOutputTokens chat0)
                       (chat_stopSequences chat0) of
                  Inl e \<Rightarrow> (s1, Some e)
                | Inr chat \<Rightarrow>
                    (s1\<lparr>isLoading := False,
                        chatSessions :=
                          tryBlock (activeChatId s) messageId
                            (snd (streamResponse (env_sendMessageStream env) prompt images
                                    (env_abortedAtStart env)))
                            (chatSessions s1)\<rparr>,
                     None)))"

text \<open>The texts that the loop appends: the truthy packet texts, in order.\<close>

definition chunkTexts :: "GenerateContentResponse list \<Rightarrow> string list" where
  "chunkTexts chunks =
     concat (map (\<lambda>c. case resp_text c of Some t \<Rightarrow> (if t \<noteq> [] then [t] else []) | None \<Rightarrow> [])
               chunks)"

section \<open>Loading the store and the actions of the interface\<close>

datatype 'a parsed = ParseError | Parsed 'a

text \<open>
  The entries of local storage that the mount effect reads: absent, or a string on which
  \<^verbatim>\<open>JSON.parse\<close> throws or yields a value.
\<close>

record storage =
  savedSessions :: "ChatSession list parsed option"
  savedFolders :: "Folder list parsed option"
  savedActiveId :: "string option"
  savedDarkMode :: "bool parsed option"

definition sessionWithDefaults :: "ChatSession \<Rightarrow> ChatSession" where
  "sessionWithDefaults s =
     s\<lparr>chat_temperature := Some (case chat_temperature s of Some v \<Rightarrow> v | None \<Rightarrow> 7 / 10),
       chat_topK := Some (case chat_topK s of Some v \<Rightarrow> v | None \<Rightarrow> 40),
       chat_topP := Some (case chat_topP s of Some v \<Rightarrow> v | None \<Rightarrow> 95 / 100),
       chat_safetySettings :=
         Some (case chat_safetySettings s of Some v \<Rightarrow> v | None \<Rightarrow> defaultSafetySettings),
       chat_maxOutputTokens := Some (case chat_maxOutputTokens s of Some v \<Rightarrow> v | None \<Rightarrow> 2048),
       chat_stopSequences := Some (case chat_stopSequences s of Some v \<Rightarrow> v | None \<Rightarrow> []),
       chat_useGoogleSearch :=
         Some (case chat_useGoogleSearch s of Some v \<Rightarrow> v | None \<Rightarrow> False),
       chat_pinned := Some (case chat_pinned s of Some v \<Rightarrow> v | None \<Rightarrow> False),
       chat_model := (if chat_model s \<noteq> [] then chat_model s else ''gemini-2.5-flash'')\<rparr>"

text \<open>The part of the mount effect that reads the saved sessions and the saved active id.\<close>

definition loadSessions :: "nat \<Rightarrow> storage \<Rightarrow> app_state \<Rightarrow> app_state" where
  "loadSessions now st s =
     (case savedSessions st of
        None \<Rightarrow> handleNewChat now s
      | Some ParseError \<Rightarrow> handleNewChat now s
      | Some (Parsed sessions) \<Rightarrow>
          let sessionsWithDefaults = map sessionWithDefaults sessions;
              s1 = s\<lparr>chatSessions := sessionsWithDefaults\<rparr>
          in if truthy (savedActiveId st)
                \<and> (\<exists>x \<in> set sessionsWithDefaults. Some (chat_id x) = savedActiveId st)
             then s1\<lparr>activeChatId := savedActiveId st\<rparr>
             else (case sessionsWithDefaults of
                     c # _ \<Rightarrow> s1\<lparr>activeChatId := Some (chat_id c)\<rparr>
                   | [] \<Rightarrow> handleNewChat now s1))"

text \<open>
  The mount effect: dark mode, folders, then sessions; an exception at any point is caught
  and answered with \<^verbatim>\<open>handleNewChat\<close>.
\<close>

definition loadFromStorage :: "nat \<Rightarrow> storage \<Rightarrow> app_state \<Rightarrow> app_state" where
  "loadFromStorage now st s =
     (case savedDarkMode st of
        Some ParseError \<Rightarrow> handleNewChat now s
      | Some (Parsed b) \<Rightarrow>
          (case savedFolders st of
             Some ParseError \<Rightarrow> handleNewChat now (s\<lparr>isDarkMode := b\<rparr>)
           | Some (Parsed fs) \<Rightarrow> loadSessions now st (s\<lparr>isDarkMode := b, folders := fs\<rparr>)
           | None \<Rightarrow> loadSessions now st (s\<lparr>isDarkMode := b\<rparr>))
      | None \<Rightarrow>
          (case savedFolders st of
             Some ParseError \<Rightarrow> handleNewChat now (s\<lparr>isDarkMode := True\<rparr>)
           | Some (Parsed fs) \<Rightarrow> loadSessions now st (s\<lparr>isDarkMode := True, folders := fs\<rparr>)
           | None \<Rightarrow> loadSessions now st (s\<lparr>isDarkMode := True\<rparr>)))"

text \<open>
  The handlers that the interface can call on the store. Those that read the clock or the
  outside world carry what they read.
\<close>

datatype action =
  NewChat nat
  | DeleteChat nat bool string
  | SelectChat string
  | RenameChat string string
  | TogglePinChat string
  | CreateFolder nat string
  | DeleteFolder string
  | RenameFolder string string
  | ToggleFolder string
  | MoveChatToFolder string "string option"
  | SubmitPrompt gen_env string "(string \<times> string) list option" "ChatMessage list option"
  | UpdateActiveChat "ChatSession \<Rightarrow> ChatSession"

text \<open>
  One action. The sidebar offers \<^verbatim>\<open>onSelectChat\<close> (which is \<^verbatim>\<open>setActiveChatId\<close>) only on
  the items of \<^verbatim>\<open>chatSessions\<close>, so selecting an id that no session has is not a step.
  The remaining handlers (settings, \<^verbatim>\<open>handleSend\<close>, \<^verbatim>\<open>handleEditMessage\<close>,
  \<^verbatim>\<open>handleRegenerate\<close>) change the store through \<^verbatim>\<open>updateActiveChat\<close> with an updater
  \<^verbatim>\<open>chat => ({ ...chat, field: value })\<close> for a field other than the id; they are the last
  action, which is a step for updaters that keep the id.
\<close>

fun step :: "action \<Rightarrow> app_state \<Rightarrow> app_state option" where
  "step (NewChat now) s = Some (handleNewChat now s)"
| "step (DeleteChat now confirmed chatId) s = Some (handleDeleteChat now confirmed chatId s)"
| "step (SelectChat chatId) s =
     (if chatId \<in> set (map chat_id (chatSessions s))
      then Some (s\<lparr>activeChatId := Some chatId\<rparr>) else None)"
| "step (RenameChat chatId newTitle) s = Some (handleRenameChat chatId newTitle s)"
| "step (TogglePinChat chatId) s = Some (handleTogglePinChat chatId s)"
| "step (CreateFolder now name) s = Some (handleCreateFolder now name s)"
| "step (DeleteFolder folderId) s = Some (handleDeleteFolder folderId s)"
| "step (RenameFolder folderId newName) s = Some (handleRenameFolder folderId newName s)"
| "step (ToggleFolder folderId) s = Some (handleToggleFolder folderId s)"
| "step (MoveChatToFolder chatId folderId) s = Some (handleMoveChatToFolder chatId folderId s)"
| "step (SubmitPrompt env prompt images history) s =
     Some (fst (submitPrompt env prompt images history s))"
| "step (UpdateActiveChat updater) s =
     (if \<forall>c \<in> set (chatSessions s). chat_id (updater c) = chat_id c
      then Some (s\<lparr>chatSessions := updateActiveChat (activeChatId s) updater (chatSessions s)\<rparr>)
      else None)"

fun runActions :: "action list \<Rightarrow> app_state \<Rightarrow> app_state option" where
  "runActions [] s = Some s"
| "runActions (a # as) s = (case step a s of None \<Rightarrow> None | Some s' \<Rightarrow> runActions as s')"

text \<open>A run of the application: the mount effect on the initial state, then actions.\<close>

definition appRun :: "nat \<Rightarrow> storage \<Rightarrow> action list \<Rightarrow> app_state option" where
  "appRun now st as = runActions as (loadFromStorage now st initialState)"

text \<open>
  The store invariant: with sessions there is an active id, and an active id is the id of a
  session.
\<close>

definition storeInv :: "app_state \<Rightarrow> bool" where
  "storeInv s =
     ((chatSessions s \<noteq> [] \<longrightarrow> activeChatId s \<noteq> None)
      \<and> (\<forall>a. activeChatId s = Some a \<longrightarrow> a \<in> set (map chat_id (chatSessions s))))"

section \<open>The live session (components/LiveChatView.tsx)\<close>

text \<open>
  \<^verbatim>\<open>addOrUpdateTranscription\<close>, as the updater it passes to \<^verbatim>\<open>setTranscriptions\<close>;
  \<open>now\<close> is the clock reading that names a new entry.
\<close>

definition addOrUpdateTranscription ::
  "nat \<Rightarrow> MessageRole \<Rightarrow> string \<Rightarrow> bool \<Rightarrow> TranscriptionMessage list \<Rightarrow>
   TranscriptionMessage list" where
  "addOrUpdateTranscription now role text isFinal prev =
     (if role = TOOL then
        prev @ [\<lparr>tr_id = toString now, tr_role = role, tr_text = text, tr_isFinal = True\<rparr>]
      else if prev \<noteq> [] \<and> tr_role (last prev) = role \<and> \<not> tr_isFinal (last prev) then
        butlast prev
        @ [(last prev)\<lparr>tr_text := tr_text (last prev) @ text, tr_isFinal := isFinal\<rparr>]
      else if trim text \<noteq> [] then
        prev @ [\<lparr>tr_id = toString now, tr_role = role, tr_text = text, tr_isFinal = isFinal\<rparr>]
      else prev)"

text \<open>The updater of the turn-complete branch of \<^verbatim>\<open>onmessage\<close>.\<close>

definition finalizeAll :: "TranscriptionMessage list \<Rightarrow> TranscriptionMessage list" where
  "finalizeAll prev = map (\<lambda>t. if \<not> tr_isFinal t then t\<lparr>tr_isFinal := True\<rparr> else t) prev"

record FunctionCall =
  fc_id :: string
  fc_name :: string
  fc_args :: string

text \<open>
  What \<^verbatim>\<open>onmessage\<close> reads of a server message. \<open>fc_args\<close> is the text that
  \<^verbatim>\<open>JSON.stringify\<close> gives for the arguments. \<open>modelAudio\<close> is the number of 16-bit samples
  in the payload at \<^verbatim>\<open>modelTurn.parts[0].inlineData.data\<close>, absent when that string is
  missing or empty.
\<close>

record LiveServerMessage =
  toolCall :: "FunctionCall list option"
  inputTranscription :: "string option"
  outputTranscription :: "string option"
  turnComplete :: bool
  modelAudio :: "nat option"
  interrupted :: bool

text \<open>
  The live session: the transcript, the cursor \<^verbatim>\<open>nextStartTimeRef\<close>, the set
  \<^verbatim>\<open>sourcesRef\<close> (buffer sources named by the order of their creation), and the calls made
  on buffer sources so far: \<^verbatim>\<open>start(when)\<close> and \<^verbatim>\<open>stop()\<close>. Times are seconds.
\<close>

record live_state =
  transcriptions :: "TranscriptionMessage list"
  nextStartTime :: rat
  sources :: "nat list"
  sourcesCreated :: nat
  startCalls :: "(nat \<times> rat) list"
  stopCalls :: "nat list"
  toolTimers :: "FunctionCall list"

text \<open>The duration of a buffer of \<open>frameCount\<close> frames at 24000 frames per second.\<close>

definition duration :: "nat \<Rightarrow> rat" where
  "duration frameCount = of_nat frameCount / 24000"

definition toolCallStep :: "nat \<Rightarrow> FunctionCall list \<Rightarrow> live_state \<Rightarrow> live_state" where
  "toolCallStep now calls st =
     st\<lparr>transcriptions :=
          fold (\<lambda>fc. addOrUpdateTranscription now TOOL
                       (''Executing '' @ fc_name fc @ ''('' @ fc_args fc @ '')...'') True)
            calls (transcriptions st),
        toolTimers := toolTimers st @ calls\<rparr>"

text \<open>The playback branch: the cursor is raised to the audio clock, the source starts there.\<close>

definition playChunk :: "rat \<Rightarrow> nat \<Rightarrow> live_state \<Rightarrow> live_state" where
  "playChunk currentTime frameCount st =
     (let startAt = max (nextStartTime st) currentTime;
          source = sourcesCreated st
      in st\<lparr>nextStartTime := startAt + duration frameCount,
            sources := sources st @ [source],
            sourcesCreated := Suc source,
            startCalls := startCalls st @ [(source, startAt)]\<rparr>)"

definition interruptStep :: "live_state \<Rightarrow> live_state" where
  "interruptStep st =
     st\<lparr>stopCalls := stopCalls st @ sources st, sources := [], nextStartTime := 0\<rparr>"

text \<open>
  \<^verbatim>\<open>onmessage\<close>; \<open>now\<close> is \<^verbatim>\<open>Date.now()\<close> and \<open>currentTime\<close> the reading of the output audio
  clock when the message is handled. The branches run in the order of the source.
\<close>

definition onmessage :: "nat \<Rightarrow> rat \<Rightarrow> LiveServerMessage \<Rightarrow> live_state \<Rightarrow> live_state" where
  "onmessage now currentTime message st =
     (let st1 = (case toolCall message of
                   Some calls \<Rightarrow> toolCallStep now calls st | None \<Rightarrow> st);
          st2 = (case inputTranscription message of
                   Some text \<Rightarrow>
                     st1\<lparr>transcriptions :=
                           addOrUpdateTranscription now USER text False (transcriptions st1)\<rparr>
                 | None \<Rightarrow> st1);
          st3 = (case outputTranscription message of
                   Some text \<Rightarrow>
                     st2\<lparr>transcriptions :=
                           addOrUpdateTranscription now MODEL text False (transcriptions st2)\<rparr>
                 | None \<Rightarrow> st2);
          st4 = (if turnComplete message
                 then st3\<lparr>transcriptions := finalizeAll (transcriptions st3)\<rparr> else st3);
          st5 = (case modelAudio message of
                   Some frameCount \<Rightarrow> playChunk currentTime frameCount st4 | None \<Rightarrow> st4)
      in if interrupted message then interruptStep st5 else st5)"

text \<open>The \<^verbatim>\<open>ended\<close> listener of a buffer source removes it from the set.\<close>

definition sourceEnded :: "nat \<Rightarrow> live_state \<Rightarrow> live_state" where
  "sourceEnded source st = st\<lparr>sources := filter (\<lambda>x. x \<noteq> source) (sources st)\<rparr>"

text \<open>
  The timer that a tool call sets fires 1500 ms later and reports success; the check mark
  that opens the line is given as its UTF-8 bytes.
\<close>

definition toolTimerFired :: "nat \<Rightarrow> FunctionCall \<Rightarrow> live_state \<Rightarrow> live_state" where
  "toolTimerFired now fc st =
     st\<lparr>transcriptions :=
          addOrUpdateTranscription now TOOL
            ([CHR 0xE2, CHR 0x9C, CHR 0x85] @ '' Successfully executed '' @ fc_name fc @ ''.'')
            True (transcriptions st),
        toolTimers := remove1 fc (toolTimers st)\<rparr>"

text \<open>A sequence of server messages, each with the clock readings at its arrival.\<close>

fun runMessages ::
  "(nat \<times> rat \<times> LiveServerMessage) list \<Rightarrow> live_state \<Rightarrow> live_state" where
  "runMessages [] st = st"
| "runMessages ((now, currentTime, message) # rest) st =
     runMessages rest (onmessage now currentTime message st)"

text \<open>A sequence of non-final transcript updates of one role, each with its clock reading.\<close>

fun transcribeAll ::
  "MessageRole \<Rightarrow> (nat \<times> string) list \<Rightarrow> TranscriptionMessage list \<Rightarrow> TranscriptionMessage list" where
  "transcribeAll role [] prev = prev"
| "transcribeAll role ((now, text) # updates) prev =
     transcribeAll role updates (addOrUpdateTranscription now role text False prev)"

text \<open>The transcript ends with an entry of the role that is not final yet.\<close>

definition openEntry :: "MessageRole \<Rightarrow> TranscriptionMessage list \<Rightarrow> bool" where
  "openEntry role prev = (prev \<noteq> [] \<and> tr_role (last prev) = role \<and> \<not> tr_isFinal (last prev))"

text \<open>The state that \<^verbatim>\<open>startConversation\<close> sets up before the connection opens.\<close>

definition liveStart :: live_state where
  "liveStart =
     \<lparr>transcriptions =
        [\<lparr>tr_id = ''start'', tr_role = SYSTEM, tr_text = ''Connecting...'', tr_isFinal = True\<rparr>],
      nextStartTime = 0, sources = [], sourcesCreated = 0, startCalls = [], stopCalls = [],
      toolTimers = []\<rparr>"

text \<open>A server message with nothing in it, to build messages from.\<close>

definition emptyMessage :: LiveServerMessage where
  "emptyMessage =
     \<lparr>toolCall = None, inputTranscription = None, outputTranscription = None,
      turnComplete = False, modelAudio = None, interrupted = False\<rparr>"
section \<open>Observations used in the statements\<close>

text \<open>
  The last message of the active session; during and after a generation this is the
  placeholder that \<^verbatim>\<open>submitPrompt\<close> appended.
\<close>

definition placeholderIn :: "string option \<Rightarrow> ChatSession list \<Rightarrow> ChatMessage option" where
  "placeholderIn activeId sessions =
     (case find (\<lambda>session. Some (chat_id session) = activeId) sessions of
        None \<Rightarrow> None
      | Some chat \<Rightarrow> if chat_messages chat = [] then None else Some (last (chat_messages chat)))"

definition placeholderOf :: "app_state \<Rightarrow> ChatMessage option" where
  "placeholderOf s = placeholderIn (activeChatId s) (chatSessions s)"

text \<open>The error that leaves the \<^verbatim>\<open>try\<close> block, if any: thrown by \<^verbatim>\<open>streamResponse\<close> or by the stream.\<close>

definition failureOf :: "js_error + chunk_stream \<Rightarrow> js_error option" where
  "failureOf response = (case response of Inl e \<Rightarrow> Some e | Inr stream \<Rightarrow> snd stream)"

text \<open>
  The sessions at the moment the \<^verbatim>\<open>for await\<close> loop is left: by the end of the generator
  (the stream ended, or the abort signal was seen) or by an exception.
\<close>

definition sessionsAfterLoop ::
  "string option \<Rightarrow> string \<Rightarrow> js_error + chunk_stream \<Rightarrow> ChatSession list \<Rightarrow> ChatSession list" where
  "sessionsAfterLoop activeId messageId response sessions =
     (case response of
        Inl e \<Rightarrow> sessions
      | Inr stream \<Rightarrow> snd (snd (consumeStream activeId messageId (fst stream) ([], None, sessions))))"

text \<open>The packets that the loop has consumed when it is left.\<close>

definition consumedChunks :: "js_error + chunk_stream \<Rightarrow> GenerateContentResponse list" where
  "consumedChunks response = (case response of Inl e \<Rightarrow> [] | Inr stream \<Rightarrow> fst stream)"

text \<open>A session with the grounding sources of all its messages erased.\<close>

definition withoutSources :: "ChatSession \<Rightarrow> ChatSession" where
  "withoutSources chat =
     chat\<lparr>chat_messages := map (\<lambda>m. m\<lparr>msg_groundingSources := None\<rparr>) (chat_messages chat)\<rparr>"

text \<open>
  Every session id occurs only in folders that carry one and the same folder id.
\<close>

definition sameFolderId :: "Folder list \<Rightarrow> bool" where
  "sameFolderId fs =
     (\<forall>f \<in> set fs. \<forall>g \<in> set fs. \<forall>c \<in> set (folder_chatIds f).
        c \<in> set (folder_chatIds g) \<longrightarrow> folder_id f = folder_id g)"

text \<open>The folder list in storage, if there is one that parses, has this property.\<close>

definition storedFoldersGrouped :: "storage \<Rightarrow> bool" where
  "storedFoldersGrouped st =
     (case savedFolders st of Some (Parsed fs) \<Rightarrow> sameFolderId fs | _ \<Rightarrow> True)"

text \<open>The error that \<^verbatim>\<open>streamResponse\<close> throws in place of a failure of the request.\<close>

definition requestFailedError :: js_error where
  "requestFailedError =
     JsError ''Error'' ''Failed to get response from AI. Please check your API key and network connection.''"

text \<open>
  Two message lists of the same length that agree, position by position, on every message
  whose id is not the given one; two session lists of the same length in which only
  messages of that id in sessions of the active id may differ.
\<close>

definition sameExceptMessage :: "string \<Rightarrow> ChatMessage list \<Rightarrow> ChatMessage list \<Rightarrow> bool" where
  "sameExceptMessage messageId before after =
     list_all2 (\<lambda>m m'. msg_id m \<noteq> messageId \<longrightarrow> m' = m) before after"

definition sameExceptPlaceholder ::
  "string option \<Rightarrow> string \<Rightarrow> ChatSession list \<Rightarrow> ChatSession list \<Rightarrow> bool" where
  "sameExceptPlaceholder activeId messageId before after =
     list_all2
       (\<lambda>c c'. (Some (chat_id c) \<noteq> activeId \<longrightarrow> c' = c)
               \<and> c' = c\<lparr>chat_messages := chat_messages c'\<rparr>
               \<and> sameExceptMessage messageId (chat_messages c) (chat_messages c'))
       before after"

section \<open>Concrete inputs\<close>

definition emptyStorage :: storage where
  "emptyStorage =
     \<lparr>savedSessions = None, savedFolders = None, savedActiveId = None, savedDarkMode = None\<rparr>"

definition storeWith :: "ChatSession list \<Rightarrow> string \<Rightarrow> app_state" where
  "storeWith sessions active =
     \<lparr>chatSessions = sessions, folders = [], activeChatId = Some active, isLoading = False,
      isSidebarOpen = False, isDarkMode = True\<rparr>"

definition exampleMessages :: "ChatMessage list" where
  "exampleMessages =
     [\<lparr>msg_id = ''a'', msg_role = USER, msg_content = ''Hi'', msg_imageUrls = None,
       msg_groundingSources = None\<rparr>,
      \<lparr>msg_id = ''b'', msg_role = MODEL, msg_content = '''', msg_imageUrls = None,
       msg_groundingSources = Some []\<rparr>]"

text \<open>Stores with one and with two default sessions, the first one active.\<close>

definition oneChatStore :: app_state where
  "oneChatStore = storeWith [newChat 4] ''4''"

definition twoChatStore :: app_state where
  "twoChatStore = storeWith [newChat 5, newChat 4] ''5''"

text \<open>Response packets, and environments whose SDK answers every request with a given stream.\<close>

definition textChunk :: "string \<Rightarrow> GenerateContentResponse" where
  "textChunk t = \<lparr>resp_text = Some t, resp_groundingChunks = None\<rparr>"

definition sourcedChunk :: "string \<Rightarrow> string \<Rightarrow> string \<Rightarrow> GenerateContentResponse" where
  "sourcedChunk t uri title =
     \<lparr>resp_text = Some t,
      resp_groundingChunks =
        Some [\<lparr>gc_web = Some \<lparr>web_uri = Some uri, web_title = Some title\<rparr>\<rparr>]\<rparr>"

definition streamingEnv :: "sdk_stream \<Rightarrow> gen_env" where
  "streamingEnv stream =
     \<lparr>env_now = 7, env_apiKey = Some ''key'', env_abortedAtStart = False,
      env_sendMessageStream = (\<lambda>parts. Inr stream)\<rparr>"

definition helloEnv :: gen_env where
  "helloEnv = streamingEnv ([(False, textChunk ''Hel''), (False, textChunk ''lo!'')], None)"

definition cancelEnv :: gen_env where
  "cancelEnv =
     streamingEnv ([(False, sourcedChunk ''Hel'' ''https://example.org'' ''Example''),
                    (True, textChunk ''lo!'')], None)"

definition failingEnv :: gen_env where
  "failingEnv = streamingEnv ([(False, textChunk ''Hel'')], Some (JsError ''TypeError'' ''network down''))"

definition abortErrorEnv :: gen_env where
  "abortErrorEnv = streamingEnv ([(False, textChunk ''Hel'')], Some (JsError ''AbortError'' ''aborted''))"

definition abortedEnv :: gen_env where
  "abortedEnv = (streamingEnv ([(False, textChunk ''Hel'')], None))\<lparr>env_abortedAtStart := True\<rparr>"

definition failedRequestEnv :: gen_env where
  "failedRequestEnv =
     \<lparr>env_now = 7, env_apiKey = Some ''key'', env_abortedAtStart = False,
      env_sendMessageStream = (\<lambda>parts. Inl (JsError ''TypeError'' ''fetch failed''))\<rparr>"

definition noKeyEnv :: gen_env where
  "noKeyEnv = (streamingEnv ([(False, textChunk ''Hel'')], None))\<lparr>env_apiKey := None\<rparr>"

definition lateErrorEnv :: gen_env where
  "lateErrorEnv =
     streamingEnv ([(False, textChunk ''Hel''), (True, textChunk ''lo!'')],
                   Some (JsError ''TypeError'' ''network down''))"

text \<open>Messages and values that the runs on these inputs produce.\<close>

definition userHi :: ChatMessage where
  "userHi =
     \<lparr>msg_id = ''7'', msg_role = USER, msg_content = ''Hi'', msg_imageUrls = None,
      msg_groundingSources = None\<rparr>"

definition placeholderWith :: "string \<Rightarrow> GroundingSource list \<Rightarrow> ChatMessage" where
  "placeholderWith content srcs =
     \<lparr>msg_id = ''8'', msg_role = MODEL, msg_content = content, msg_imageUrls = None,
      msg_groundingSources = Some srcs\<rparr>"

definition exampleSource :: GroundingSource where
  "exampleSource = \<lparr>src_uri = Some ''https://example.org'', src_title = Some ''Example''\<rparr>"

definition errorBlock :: string where
  "errorBlock =
     ''**Error:** I seem to be having trouble connecting. Please check your connection and API key, then try again.''
     @ [CHR 0x0A, CHR 0x0A] @ ''> network down''"

definition requestBlock :: string where
  "requestBlock =
     ''**Error:** I seem to be having trouble connecting. Please check your connection and API key, then try again.''
     @ [CHR 0x0A, CHR 0x0A]
     @ ''> Failed to get response from AI. Please check your API key and network connection.''"

text \<open>Server messages of the live session, and a session in which one chunk is playing.\<close>

definition userSays :: "string \<Rightarrow> LiveServerMessage" where
  "userSays text = emptyMessage\<lparr>inputTranscription := Some text\<rparr>"

definition turnCompleteMessage :: LiveServerMessage where
  "turnCompleteMessage = emptyMessage\<lparr>turnComplete := True\<rparr>"

definition audioMessage :: "nat \<Rightarrow> LiveServerMessage" where
  "audioMessage frameCount = emptyMessage\<lparr>modelAudio := Some frameCount\<rparr>"

definition interruptedMessage :: LiveServerMessage where
  "interruptedMessage = emptyMessage\<lparr>interrupted := True\<rparr>"

definition playingState :: live_state where
  "playingState = onmessage 1 0 (audioMessage 24000) liveStart"

definition helEntry :: "string \<Rightarrow> bool \<Rightarrow> TranscriptionMessage" where
  "helEntry body final = \<lparr>tr_id = ''5'', tr_role = USER, tr_text = body, tr_isFinal = final\<rparr>"
section \<open>Evaluation of identifiers\<close>

lemma toString_numeral:
  "toString (numeral k) =
     (if numeral k < (10::nat) then [digitChar (numeral k)]
      else toString (numeral k div 10) @ [digitChar (numeral k mod 10)])"
  by (rule toString.simps)

lemma toString_0: "toString 0 = ''0''"
  by (simp add: toString.simps[of 0] digitChar_def)

lemma toString_Suc_0: "toString (Suc 0) = ''1''"
  by (simp add: toString.simps[of "Suc 0"] digitChar_def)

lemma toString_1: "toString 1 = ''1''"
  using toString_Suc_0 by simp

lemmas toString_eval = toString_numeral toString_0 toString_1 toString_Suc_0 digitChar_def

lemma chat_id_newChat: "chat_id (newChat now) = toString now"
  by (simp add: newChat_def)
section \<open>The message reducer\<close>

lemma applyPatch_absent:
  "messageId \<notin> set (map msg_id messages) \<Longrightarrow> applyPatch messageId p messages = messages"
  unfolding applyPatch_def by (induction messages) auto

lemma applyPatch_length: "length (applyPatch messageId p messages) = length messages"
  by (simp add: applyPatch_def)

lemma patchMessage_id: "msg_id (patchMessage p m) = msg_id m"
  by (cases p) simp_all

lemma applyPatch_ids: "map msg_id (applyPatch messageId p messages) = map msg_id messages"
  by (simp add: applyPatch_def patchMessage_id)

lemma applyPatch_nth_other:
  "i < length messages \<Longrightarrow> msg_id (messages ! i) \<noteq> messageId \<Longrightarrow>
   applyPatch messageId p messages ! i = messages ! i"
  by (simp add: applyPatch_def)

text \<open>
  C8. A patch of the message list (the content patch of lines 280-283 that writes the text
  appended so far, the content patch of the error path, or the sources patch) that targets
  an id which no message has returns the list as it is; the patch is a total function, so
  there is no exception. Every patch keeps the length and the order of the ids, and every
  message whose id is not the target is returned unchanged at its position.
\<close>

theorem patch_frame:
  "(messageId \<notin> set (map msg_id messages) \<longrightarrow> applyPatch messageId p messages = messages)
   \<and> length (applyPatch messageId p messages) = length messages
   \<and> map msg_id (applyPatch messageId p messages) = map msg_id messages
   \<and> (\<forall>i < length messages. msg_id (messages ! i) \<noteq> messageId \<longrightarrow>
          applyPatch messageId p messages ! i = messages ! i)"
  using applyPatch_absent applyPatch_length applyPatch_ids applyPatch_nth_other by blast

theorem patch_frame_witness:
  "''zz'' \<notin> set (map msg_id exampleMessages)
   \<and> applyPatch ''zz'' (SetContent ''x'') exampleMessages = exampleMessages
   \<and> (0::nat) < length exampleMessages \<and> msg_id (exampleMessages ! 0) \<noteq> ''b''
   \<and> applyPatch ''b'' (SetContent ''x'') exampleMessages ! 0 = exampleMessages ! 0
   \<and> msg_content (applyPatch ''b'' (SetContent ''x'') exampleMessages ! 1) = ''x''"
proof -
  have absent: "''zz'' \<notin> set (map msg_id exampleMessages)"
    by (simp add: exampleMessages_def)
  have idx: "(0::nat) < length exampleMessages" "msg_id (exampleMessages ! 0) \<noteq> ''b''"
    by (simp_all add: exampleMessages_def)
  have upd: "msg_content (applyPatch ''b'' (SetContent ''x'') exampleMessages ! 1) = ''x''"
    by (simp add: exampleMessages_def applyPatch_def)
  from patch_frame[of "''zz''" exampleMessages "SetContent ''x''"] absent
  have a: "applyPatch ''zz'' (SetContent ''x'') exampleMessages = exampleMessages" by blast
  from patch_frame[of "''b''" exampleMessages "SetContent ''x''"] idx
  have b: "applyPatch ''b'' (SetContent ''x'') exampleMessages ! 0 = exampleMessages ! 0" by blast
  show ?thesis using absent idx upd a b by simp
qed
section \<open>Folders\<close>

lemma filter_key_distinct:
  "distinct (map k xs) \<Longrightarrow> length (filter (\<lambda>x. k x = v) xs) \<le> 1"
proof (induction xs)
  case Nil
  then show ?case by simp
next
  case (Cons x xs)
  show ?case
  proof (cases "k x = v")
    case True
    from Cons.prems have "k x \<notin> k ` set xs" by simp
    with True have "\<forall>y \<in> set xs. k y \<noteq> v" by blast
    then have "filter (\<lambda>x. k x = v) xs = []" by (simp add: filter_empty_conv)
    with True show ?thesis by simp
  next
    case False
    with Cons show ?thesis by simp
  qed
qed

lemma moveChatToFolder_ids:
  "map folder_id (moveChatToFolder chatId folderId fs) = map folder_id fs"
  by (simp add: moveChatToFolder_def Let_def comp_def)

lemma moveChatToFolder_map:
  "moveChatToFolder chatId folderId fs =
     map (\<lambda>f. if truthy folderId \<and> Some (folder_id f) = folderId
               then f\<lparr>folder_chatIds := chatId # filter (\<lambda>i. i \<noteq> chatId) (folder_chatIds f)\<rparr>
               else f\<lparr>folder_chatIds := filter (\<lambda>i. i \<noteq> chatId) (folder_chatIds f)\<rparr>) fs"
  by (simp add: moveChatToFolder_def Let_def)

lemma filter_length_mono:
  "(\<And>x. x \<in> set xs \<Longrightarrow> P x \<Longrightarrow> Q x) \<Longrightarrow> length (filter P xs) \<le> length (filter Q xs)"
  by (induction xs) auto

lemma sameFolderId_single:
  assumes "sameFolderId fs" "distinct (map folder_id fs)"
  shows "length (foldersOf c fs) \<le> 1"
proof (cases "foldersOf c fs")
  case Nil
  then show ?thesis by simp
next
  case (Cons f rest)
  then have "f \<in> set (foldersOf c fs)" by simp
  then have f: "f \<in> set fs" "c \<in> set (folder_chatIds f)"
    by (simp_all add: foldersOf_def)
  have "length (foldersOf c fs) \<le> length (filter (\<lambda>g. folder_id g = folder_id f) fs)"
    unfolding foldersOf_def
  proof (rule filter_length_mono)
    fix g assume "g \<in> set fs" "c \<in> set (folder_chatIds g)"
    with f assms(1) show "folder_id g = folder_id f"
      unfolding sameFolderId_def by blast
  qed
  with filter_key_distinct[OF assms(2), of "folder_id f"] show ?thesis by simp
qed

lemma sameFolderId_shrink:
  assumes "sameFolderId fs"
    and "\<And>f. f \<in> set fs \<Longrightarrow> folder_id (h f) = folder_id f"
    and "\<And>f. f \<in> set fs \<Longrightarrow> set (folder_chatIds (h f)) \<subseteq> set (folder_chatIds f)"
  shows "sameFolderId (map h fs)"
  unfolding sameFolderId_def
proof (intro ballI impI)
  fix f' g' c
  assume a: "f' \<in> set (map h fs)" "g' \<in> set (map h fs)" "c \<in> set (folder_chatIds f')"
    "c \<in> set (folder_chatIds g')"
  then obtain f g where fg: "f \<in> set fs" "g \<in> set fs" "f' = h f" "g' = h g" by auto
  with a assms(3) have "c \<in> set (folder_chatIds f)" "c \<in> set (folder_chatIds g)" by blast+
  with fg assms(1) have "folder_id f = folder_id g" unfolding sameFolderId_def by blast
  with fg assms(2) show "folder_id f' = folder_id g'" by simp
qed

lemma sameFolderId_filter: "sameFolderId fs \<Longrightarrow> sameFolderId (filter P fs)"
  unfolding sameFolderId_def by auto

lemma sameFolderId_moveChatToFolder:
  assumes "sameFolderId fs"
  shows "sameFolderId (moveChatToFolder chatId folderId fs)"
  unfolding sameFolderId_def
proof (intro ballI impI)
  fix f' g' c
  let ?h = "\<lambda>f. if truthy folderId \<and> Some (folder_id f) = folderId
               then f\<lparr>folder_chatIds := chatId # filter (\<lambda>i. i \<noteq> chatId) (folder_chatIds f)\<rparr>
               else f\<lparr>folder_chatIds := filter (\<lambda>i. i \<noteq> chatId) (folder_chatIds f)\<rparr>"
  assume a: "f' \<in> set (moveChatToFolder chatId folderId fs)"
    "g' \<in> set (moveChatToFolder chatId folderId fs)"
    "c \<in> set (folder_chatIds f')" "c \<in> set (folder_chatIds g')"
  then have "f' \<in> ?h ` set fs" "g' \<in> ?h ` set fs"
    unfolding moveChatToFolder_map by (simp_all only: set_map)
  then obtain f g where fg: "f \<in> set fs" "g \<in> set fs" "f' = ?h f" "g' = ?h g"
    by blast
  have ids: "folder_id f' = folder_id f" "folder_id g' = folder_id g"
    using fg by simp_all
  show "folder_id f' = folder_id g'"
  proof (cases "c = chatId")
    case True
    with a(3,4) fg(3,4) have "Some (folder_id f) = folderId" "Some (folder_id g) = folderId"
      by (auto split: if_splits)
    then have "folder_id f = folder_id g" by (metis option.inject)
    with ids show ?thesis by simp
  next
    case False
    with a(3,4) fg(3,4) have "c \<in> set (folder_chatIds f)" "c \<in> set (folder_chatIds g)"
      by (auto split: if_splits)
    with fg(1,2) assms have "folder_id f = folder_id g" unfolding sameFolderId_def by blast
    with ids show ?thesis by simp
  qed
qed

lemma sameFolderId_moveAll: "sameFolderId fs \<Longrightarrow> sameFolderId (moveAll ops fs)"
proof (induction ops arbitrary: fs)
  case Nil
  then show ?case by simp
next
  case (Cons op ops)
  obtain chatId folderId where "op = (chatId, folderId)" by (cases op)
  with Cons show ?case by (simp add: sameFolderId_moveChatToFolder)
qed

lemma moveAll_ids: "map folder_id (moveAll ops fs) = map folder_id fs"
proof (induction ops arbitrary: fs)
  case Nil
  then show ?case by simp
next
  case (Cons op ops)
  obtain chatId folderId where "op = (chatId, folderId)" by (cases op)
  with Cons show ?case by (simp add: moveChatToFolder_ids)
qed

lemma sameFolderId_Cons_empty:
  assumes "sameFolderId fs" "folder_chatIds f = []"
  shows "sameFolderId (f # fs)"
  using assms unfolding sameFolderId_def by auto

lemma folders_handleNewChat: "folders (handleNewChat now s) = folders s"
  by (simp add: handleNewChat_def)

lemma sameFolderId_handleDeleteChat:
  assumes "sameFolderId (folders s)"
  shows "sameFolderId (folders (handleDeleteChat now confirmed chatId s))"
proof -
  have m: "sameFolderId (map (\<lambda>f. f\<lparr>folder_chatIds := filter (\<lambda>i. i \<noteq> chatId) (folder_chatIds f)\<rparr>)
                          (folders s))"
    by (rule sameFolderId_shrink[OF assms]) auto
  show ?thesis
    using assms m
    by (simp add: handleDeleteChat_def Let_def folders_handleNewChat split: list.splits)
qed

lemma folders_submitPrompt: "folders (fst (submitPrompt env prompt images history s)) = folders s"
  by (simp add: submitPrompt_def Let_def split: option.splits sum.splits)

lemma sameFolderId_step:
  assumes "sameFolderId (folders s)" "step a s = Some s'"
  shows "sameFolderId (folders s')"
proof (cases a)
  case (NewChat now)
  with assms show ?thesis by (auto simp: folders_handleNewChat)
next
  case (DeleteChat now confirmed chatId)
  with assms show ?thesis using sameFolderId_handleDeleteChat by auto
next
  case (SelectChat chatId)
  with assms show ?thesis by (auto split: if_splits)
next
  case (RenameChat chatId newTitle)
  with assms show ?thesis by (auto simp: handleRenameChat_def)
next
  case (TogglePinChat chatId)
  with assms show ?thesis by (auto simp: handleTogglePinChat_def)
next
  case (CreateFolder now name)
  have "sameFolderId (\<lparr>folder_id = toString now, folder_name = name, folder_chatIds = [],
                         folder_isOpen = True\<rparr> # folders s)"
    by (rule sameFolderId_Cons_empty[OF assms(1)]) simp
  with assms CreateFolder show ?thesis by (auto simp: handleCreateFolder_def)
next
  case (DeleteFolder folderId)
  with assms show ?thesis by (auto simp: handleDeleteFolder_def sameFolderId_filter)
next
  case (RenameFolder folderId newName)
  have "sameFolderId (map (\<lambda>f. if folder_id f = folderId then f\<lparr>folder_name := newName\<rparr> else f)
                        (folders s))"
    by (rule sameFolderId_shrink[OF assms(1)]) auto
  with assms RenameFolder show ?thesis by (auto simp: handleRenameFolder_def)
next
  case (ToggleFolder folderId)
  have "sameFolderId (map (\<lambda>f. if folder_id f = folderId
                                then f\<lparr>folder_isOpen := \<not> folder_isOpen f\<rparr> else f) (folders s))"
    by (rule sameFolderId_shrink[OF assms(1)]) auto
  with assms ToggleFolder show ?thesis by (auto simp: handleToggleFolder_def)
next
  case (MoveChatToFolder chatId folderId)
  with assms show ?thesis
    by (auto simp: handleMoveChatToFolder_def sameFolderId_moveChatToFolder)
next
  case (SubmitPrompt env prompt images history)
  with assms show ?thesis by (auto simp: folders_submitPrompt)
next
  case (UpdateActiveChat updater)
  with assms show ?thesis by (auto split: if_splits)
qed

lemma sameFolderId_runActions:
  "sameFolderId (folders s) \<Longrightarrow> runActions as s = Some s' \<Longrightarrow> sameFolderId (folders s')"
proof (induction as arbitrary: s)
  case Nil
  then show ?case by simp
next
  case (Cons a as)
  then show ?case by (auto split: option.splits dest: sameFolderId_step)
qed

lemma folders_loadSessions: "folders (loadSessions now st s) = folders s"
  by (simp add: loadSessions_def Let_def folders_handleNewChat split: option.splits parsed.splits list.splits)

lemma sameFolderId_Nil: "sameFolderId []"
  by (simp add: sameFolderId_def)

lemma sameFolderId_loadFromStorage:
  assumes "storedFoldersGrouped st"
  shows "sameFolderId (folders (loadFromStorage now st initialState))"
  using assms
  by (auto simp: loadFromStorage_def storedFoldersGrouped_def folders_loadSessions
        folders_handleNewChat initialState_def sameFolderId_Nil
        split: option.splits parsed.splits)

text \<open>
  C4, as stated, fails: two folders created at the same clock reading carry the same id,
  and a move to that id puts the session into both.
\<close>

theorem folders_sharing_an_id_counterexample:
  "appRun 4 emptyStorage
     [CreateFolder 9 ''Work'', CreateFolder 9 ''Home'', MoveChatToFolder ''4'' (Some ''9'')]
     = Some ((storeWith [newChat 4] ''4'')
         \<lparr>folders :=
            [\<lparr>folder_id = ''9'', folder_name = ''Home'', folder_chatIds = [''4''], folder_isOpen = True\<rparr>,
             \<lparr>folder_id = ''9'', folder_name = ''Work'', folder_chatIds = [''4''], folder_isOpen = True\<rparr>]\<rparr>)
   \<and> length (foldersOf ''4''
        [\<lparr>folder_id = ''9'', folder_name = ''Home'', folder_chatIds = [''4''], folder_isOpen = True\<rparr>,
         \<lparr>folder_id = ''9'', folder_name = ''Work'', folder_chatIds = [''4''], folder_isOpen = True\<rparr>])
       = 2"
  by (simp add: appRun_def loadFromStorage_def loadSessions_def emptyStorage_def
        handleNewChat_def initialState_def storeWith_def chat_id_newChat toString_eval
        handleCreateFolder_def handleMoveChatToFolder_def moveChatToFolder_def truthy_def
        foldersOf_def)

text \<open>
  C4, amended. In every state that a run of the application reaches from a storage whose
  folder list, if any, keeps each session id in folders of one id, and after any further
  sequence of move-to-folder operations (to a folder or to no folder): every session id
  occurs only in folders that carry one and the same folder id; so, if the folder ids are
  pairwise distinct, every session id is in the member list of at most one folder.
\<close>

theorem sessions_stay_in_folders_of_one_id:
  assumes "appRun now st as = Some s" "storedFoldersGrouped st"
  shows "sameFolderId (moveAll ops (folders s))
    \<and> (distinct (map folder_id (folders s)) \<longrightarrow>
         (\<forall>c. length (foldersOf c (moveAll ops (folders s))) \<le> 1))"
proof -
  have "sameFolderId (folders s)"
    using assms sameFolderId_runActions sameFolderId_loadFromStorage
    unfolding appRun_def by blast
  then have g: "sameFolderId (moveAll ops (folders s))" by (rule sameFolderId_moveAll)
  then show ?thesis using sameFolderId_single[OF g] by (simp add: moveAll_ids)
qed

theorem sessions_stay_in_folders_of_one_id_witness:
  "appRun 4 emptyStorage
     [CreateFolder 8 ''Work'', CreateFolder 9 ''Home'', MoveChatToFolder ''4'' (Some ''9'')]
     = Some ((storeWith [newChat 4] ''4'')
         \<lparr>folders :=
            [\<lparr>folder_id = ''9'', folder_name = ''Home'', folder_chatIds = [''4''], folder_isOpen = True\<rparr>,
             \<lparr>folder_id = ''8'', folder_name = ''Work'', folder_chatIds = [], folder_isOpen = True\<rparr>]\<rparr>)
   \<and> storedFoldersGrouped emptyStorage
   \<and> distinct (map folder_id
        [\<lparr>folder_id = ''9'', folder_name = ''Home'', folder_chatIds = [''4''], folder_isOpen = True\<rparr>,
         \<lparr>folder_id = ''8'', folder_name = ''Work'', folder_chatIds = [], folder_isOpen = True\<rparr>])
   \<and> (\<forall>c. length (foldersOf c
          (moveAll [(''4'', Some ''8''), (''5'', Some ''9''), (''5'', None), (''6'', Some ''8'')]
            [\<lparr>folder_id = ''9'', folder_name = ''Home'', folder_chatIds = [''4''], folder_isOpen = True\<rparr>,
             \<lparr>folder_id = ''8'', folder_name = ''Work'', folder_chatIds = [], folder_isOpen = True\<rparr>]))
          \<le> 1)
   \<and> map folder_chatIds
        (moveAll [(''4'', Some ''8''), (''5'', Some ''9''), (''5'', None), (''6'', Some ''8'')]
            [\<lparr>folder_id = ''9'', folder_name = ''Home'', folder_chatIds = [''4''], folder_isOpen = True\<rparr>,
             \<lparr>folder_id = ''8'', folder_name = ''Work'', folder_chatIds = [], folder_isOpen = True\<rparr>])
       = [[], [''6'', ''4'']]"
proof -
  let ?fs = "[\<lparr>folder_id = ''9'', folder_name = ''Home'', folder_chatIds = [''4''], folder_isOpen = True\<rparr>,
             \<lparr>folder_id = ''8'', folder_name = ''Work'', folder_chatIds = [], folder_isOpen = True\<rparr>]"
  let ?s = "(storeWith [newChat 4] ''4'')\<lparr>folders := ?fs\<rparr>"
  have run: "appRun 4 emptyStorage
     [CreateFolder 8 ''Work'', CreateFolder 9 ''Home'', MoveChatToFolder ''4'' (Some ''9'')] = Some ?s"
    by (simp add: appRun_def loadFromStorage_def loadSessions_def emptyStorage_def
        handleNewChat_def initialState_def storeWith_def chat_id_newChat toString_eval
        handleCreateFolder_def handleMoveChatToFolder_def moveChatToFolder_def truthy_def)
  have st: "storedFoldersGrouped emptyStorage"
    by (simp add: storedFoldersGrouped_def emptyStorage_def)
  have d: "distinct (map folder_id ?fs)" by simp
  have fs: "folders ?s = ?fs" by simp
  note t = sessions_stay_in_folders_of_one_id[OF run st,
      of "[(''4'', Some ''8''), (''5'', Some ''9''), (''5'', None), (''6'', Some ''8'')]"]
  have a: "\<forall>c. length (foldersOf c
          (moveAll [(''4'', Some ''8''), (''5'', Some ''9''), (''5'', None), (''6'', Some ''8'')] ?fs))
          \<le> 1"
    using t[THEN conjunct2, rule_format] d unfolding fs by blast
  have r: "map folder_chatIds
        (moveAll [(''4'', Some ''8''), (''5'', Some ''9''), (''5'', None), (''6'', Some ''8'')] ?fs)
       = [[], [''6'', ''4'']]"
    by (simp add: moveChatToFolder_def truthy_def)
  show ?thesis using run st d a r by simp
qed
section \<open>The session store\<close>

lemma storeInv_handleNewChat: "storeInv (handleNewChat now s)"
  by (simp add: storeInv_def handleNewChat_def)

lemma storeInv_same_ids:
  assumes "map chat_id (chatSessions s') = map chat_id (chatSessions s)"
    and "activeChatId s' = activeChatId s" and "storeInv s"
  shows "storeInv s'"
proof -
  from assms(1) have "chatSessions s' = [] \<longleftrightarrow> chatSessions s = []"
    by (metis map_is_Nil_conv)
  with assms show ?thesis by (simp add: storeInv_def)
qed

lemma storeInv_handleDeleteChat:
  assumes "storeInv s"
  shows "storeInv (handleDeleteChat now confirmed chatId s)"
proof (cases confirmed)
  case False
  with assms show ?thesis by (simp add: handleDeleteChat_def)
next
  case True
  let ?rem = "filter (\<lambda>c. chat_id c \<noteq> chatId) (chatSessions s)"
  show ?thesis
  proof (cases "activeChatId s = Some chatId")
    case active: True
    show ?thesis
    proof (cases ?rem)
      case Nil
      with True active show ?thesis
        by (simp add: handleDeleteChat_def Let_def storeInv_handleNewChat)
    next
      case (Cons c cs)
      with True active show ?thesis
        by (simp add: handleDeleteChat_def Let_def storeInv_def)
    qed
  next
    case other: False
    have "storeInv (s\<lparr>chatSessions := ?rem,
        folders := map (\<lambda>f. f\<lparr>folder_chatIds := filter (\<lambda>i. i \<noteq> chatId) (folder_chatIds f)\<rparr>)
                     (folders s)\<rparr>)"
      using assms other unfolding storeInv_def
      by (auto simp: filter_empty_conv)
    with True other show ?thesis by (simp add: handleDeleteChat_def Let_def)
  qed
qed

lemma updateActiveChat_ids:
  assumes "\<And>c. chat_id (updater c) = chat_id c"
  shows "map chat_id (updateActiveChat activeId updater sessions) = map chat_id sessions"
  by (induction sessions) (simp_all add: updateActiveChat_def assms)

lemma patchActiveChat_ids:
  "map chat_id (patchActiveChat activeId messageId p sessions) = map chat_id sessions"
  unfolding patchActiveChat_def by (rule updateActiveChat_ids) simp

lemma appendChunk_ids:
  "map chat_id (snd (snd (appendChunk activeId messageId chunk acc))) = map chat_id (snd (snd acc))"
  by (cases acc) (auto simp: appendChunk_def patchActiveChat_ids split: option.splits)

lemma consumeStream_ids:
  "map chat_id (snd (snd (consumeStream activeId messageId chunks acc))) = map chat_id (snd (snd acc))"
  by (induction chunks arbitrary: acc) (simp_all add: appendChunk_ids)

lemma catchBlock_ids:
  "map chat_id (catchBlock activeId messageId e sessions) = map chat_id sessions"
  by (simp add: catchBlock_def patchActiveChat_ids)

lemma attachSources_ids:
  "map chat_id (attachSources activeId messageId packet sessions) = map chat_id sessions"
  by (simp add: attachSources_def patchActiveChat_ids split: option.splits)

lemma tryBlock_ids:
  "map chat_id (tryBlock activeId messageId response sessions) = map chat_id sessions"
proof (cases response)
  case (Inl e)
  then show ?thesis by (simp add: tryBlock_def catchBlock_ids)
next
  case (Inr stream)
  obtain full packet sessions' where
    c: "consumeStream activeId messageId (fst stream) ([], None, sessions) = (full, packet, sessions')"
    by (cases "consumeStream activeId messageId (fst stream) ([], None, sessions)") auto
  have "map chat_id sessions' = map chat_id sessions"
    using consumeStream_ids[of activeId messageId "fst stream" "([], None, sessions)"] c by simp
  with Inr c show ?thesis
    by (simp add: tryBlock_def catchBlock_ids attachSources_ids split: option.splits)
qed

lemma withPlaceholder_ids:
  "map chat_id (withPlaceholder now history chat0 s) = map chat_id (chatSessions s)"
  unfolding withPlaceholder_def Let_def by (rule updateActiveChat_ids) simp

lemma submitPrompt_ids:
  "map chat_id (chatSessions (fst (submitPrompt env prompt images history s)))
     = map chat_id (chatSessions s)"
  by (simp add: submitPrompt_def Let_def tryBlock_ids withPlaceholder_ids
        split: option.splits sum.splits)

lemma submitPrompt_active:
  "activeChatId (fst (submitPrompt env prompt images history s)) = activeChatId s"
  by (simp add: submitPrompt_def Let_def split: option.splits sum.splits)

lemma storeInv_step:
  assumes "storeInv s" "step a s = Some s'"
  shows "storeInv s'"
proof (cases a)
  case (NewChat now)
  with assms show ?thesis using storeInv_handleNewChat by auto
next
  case (DeleteChat now confirmed chatId)
  with assms show ?thesis using storeInv_handleDeleteChat by auto
next
  case (SelectChat chatId)
  with assms show ?thesis by (auto simp: storeInv_def split: if_splits)
next
  case (RenameChat chatId newTitle)
  have "map chat_id (chatSessions (handleRenameChat chatId newTitle s)) = map chat_id (chatSessions s)"
    by (simp add: handleRenameChat_def comp_def)
  moreover have "activeChatId (handleRenameChat chatId newTitle s) = activeChatId s"
    by (simp add: handleRenameChat_def)
  ultimately show ?thesis using assms RenameChat storeInv_same_ids by auto
next
  case (TogglePinChat chatId)
  have "map chat_id (chatSessions (handleTogglePinChat chatId s)) = map chat_id (chatSessions s)"
    by (simp add: handleTogglePinChat_def comp_def)
  moreover have "activeChatId (handleTogglePinChat chatId s) = activeChatId s"
    by (simp add: handleTogglePinChat_def)
  ultimately show ?thesis using assms TogglePinChat storeInv_same_ids by auto
next
  case (CreateFolder now name)
  with assms show ?thesis by (auto simp: storeInv_def handleCreateFolder_def)
next
  case (DeleteFolder folderId)
  with assms show ?thesis by (auto simp: storeInv_def handleDeleteFolder_def)
next
  case (RenameFolder folderId newName)
  with assms show ?thesis by (auto simp: storeInv_def handleRenameFolder_def)
next
  case (ToggleFolder folderId)
  with assms show ?thesis by (auto simp: storeInv_def handleToggleFolder_def)
next
  case (MoveChatToFolder chatId folderId)
  with assms show ?thesis by (auto simp: storeInv_def handleMoveChatToFolder_def)
next
  case (SubmitPrompt env prompt images history)
  with assms show ?thesis
    using storeInv_same_ids[OF submitPrompt_ids submitPrompt_active] by auto
next
  case (UpdateActiveChat updater)
  with assms(2) have keeps: "\<forall>c \<in> set (chatSessions s). chat_id (updater c) = chat_id c"
    and s': "s' = s\<lparr>chatSessions := updateActiveChat (activeChatId s) updater (chatSessions s)\<rparr>"
    by (auto split: if_splits)
  have "map chat_id (updateActiveChat (activeChatId s) updater (chatSessions s))
          = map chat_id (chatSessions s)"
    using keeps by (simp add: updateActiveChat_def)
  then show ?thesis
    using storeInv_same_ids[of s' s] s' assms(1) by simp
qed

lemma storeInv_runActions:
  "storeInv s \<Longrightarrow> runActions as s = Some s' \<Longrightarrow> storeInv s'"
proof (induction as arbitrary: s)
  case Nil
  then show ?case by simp
next
  case (Cons a as)
  then show ?case by (auto split: option.splits dest: storeInv_step)
qed

lemma storeInv_loadSessions: "storeInv (loadSessions now st s)"
proof (cases "savedSessions st")
  case None
  then show ?thesis by (simp add: loadSessions_def storeInv_handleNewChat)
next
  case (Some p)
  show ?thesis
  proof (cases p)
    case ParseError
    with Some show ?thesis by (simp add: loadSessions_def storeInv_handleNewChat)
  next
    case (Parsed sessions)
    show ?thesis
    proof (cases "map sessionWithDefaults sessions")
      case Nil
      with Some Parsed show ?thesis
        by (simp add: loadSessions_def Let_def storeInv_handleNewChat)
    next
      case (Cons c cs)
      show ?thesis
      proof (cases "truthy (savedActiveId st)
          \<and> (\<exists>x \<in> set (map sessionWithDefaults sessions). Some (chat_id x) = savedActiveId st)")
        case True
        then obtain x where x: "x \<in> set (map sessionWithDefaults sessions)"
          "savedActiveId st = Some (chat_id x)" by force
        from True Some Parsed have "loadSessions now st s
            = s\<lparr>chatSessions := map sessionWithDefaults sessions,
                activeChatId := savedActiveId st\<rparr>"
          by (simp add: loadSessions_def Let_def)
        with x Cons show ?thesis by (auto simp: storeInv_def)
      next
        case False
        with Some Parsed Cons have "loadSessions now st s
            = s\<lparr>chatSessions := map sessionWithDefaults sessions,
                activeChatId := Some (chat_id c)\<rparr>"
          by (auto simp: loadSessions_def Let_def)
        with Cons show ?thesis by (auto simp: storeInv_def)
      qed
    qed
  qed
qed

lemma storeInv_loadFromStorage: "storeInv (loadFromStorage now st s)"
  by (simp add: loadFromStorage_def storeInv_loadSessions storeInv_handleNewChat
        split: option.splits parsed.splits)

lemma storeInv_appRun: "appRun now st as = Some s \<Longrightarrow> storeInv s"
  unfolding appRun_def using storeInv_runActions storeInv_loadFromStorage by blast

lemma delete_active_remaining:
  assumes "activeChatId s = Some chatId"
    and "filter (\<lambda>c. chat_id c \<noteq> chatId) (chatSessions s) \<noteq> []"
  shows "chatSessions (handleDeleteChat now True chatId s)
           = filter (\<lambda>c. chat_id c \<noteq> chatId) (chatSessions s)
         \<and> (\<exists>c \<in> set (filter (\<lambda>c. chat_id c \<noteq> chatId) (chatSessions s)).
               activeChatId (handleDeleteChat now True chatId s) = Some (chat_id c))"
proof -
  obtain c cs where "filter (\<lambda>c. chat_id c \<noteq> chatId) (chatSessions s) = c # cs"
    using assms(2) by (cases "filter (\<lambda>c. chat_id c \<noteq> chatId) (chatSessions s)") auto
  with assms(1) show ?thesis by (simp add: handleDeleteChat_def Let_def)
qed

lemma delete_active_last:
  assumes "activeChatId s = Some chatId"
    and "filter (\<lambda>c. chat_id c \<noteq> chatId) (chatSessions s) = []"
  shows "chatSessions (handleDeleteChat now True chatId s) = [newChat now]
         \<and> activeChatId (handleDeleteChat now True chatId s) = Some (chat_id (newChat now))"
  using assms by (simp add: handleDeleteChat_def Let_def handleNewChat_def)

text \<open>
  C3. In every state that a run of the application reaches (the mount effect, then any
  actions): the store invariant holds, that is, with sessions there is an active id and the
  active id is the id of a session; deleting the active session when other sessions remain
  leaves exactly those and makes one of them active; deleting it when no other session
  remains (in particular when it is the only session) leaves exactly one session, the
  default session created at that moment, and makes it active; and the state after any
  delete satisfies the invariant again.
\<close>

theorem delete_keeps_active_selection:
  assumes "appRun now0 st as = Some s"
  shows "storeInv s
    \<and> (\<forall>now chatId. activeChatId s = Some chatId \<longrightarrow>
          (filter (\<lambda>c. chat_id c \<noteq> chatId) (chatSessions s) \<noteq> [] \<longrightarrow>
             chatSessions (handleDeleteChat now True chatId s)
               = filter (\<lambda>c. chat_id c \<noteq> chatId) (chatSessions s)
             \<and> (\<exists>c \<in> set (filter (\<lambda>c. chat_id c \<noteq> chatId) (chatSessions s)).
                   activeChatId (handleDeleteChat now True chatId s) = Some (chat_id c)))
          \<and> (filter (\<lambda>c. chat_id c \<noteq> chatId) (chatSessions s) = [] \<longrightarrow>
               chatSessions (handleDeleteChat now True chatId s) = [newChat now]
               \<and> activeChatId (handleDeleteChat now True chatId s)
                   = Some (chat_id (newChat now))))
    \<and> (\<forall>now confirmed chatId. storeInv (handleDeleteChat now confirmed chatId s))
    \<and> (\<forall>now c. chatSessions s = [c] \<longrightarrow>
          chatSessions (handleDeleteChat now True (chat_id c) s) = [newChat now]
          \<and> activeChatId (handleDeleteChat now True (chat_id c) s)
              = Some (chat_id (newChat now)))"
proof -
  have inv: "storeInv s" using assms by (rule storeInv_appRun)
  have single: "chatSessions (handleDeleteChat now True (chat_id c) s) = [newChat now]
          \<and> activeChatId (handleDeleteChat now True (chat_id c) s)
              = Some (chat_id (newChat now))" if "chatSessions s = [c]" for now c
  proof -
    from inv that have "activeChatId s = Some (chat_id c)"
      by (auto simp: storeInv_def)
    then show ?thesis using that delete_active_last[of s "chat_id c" now] by simp
  qed
  show ?thesis
    using inv single delete_active_remaining delete_active_last storeInv_handleDeleteChat
    by blast
qed

theorem delete_keeps_active_selection_witness:
  "appRun 4 emptyStorage [NewChat 5] = Some (storeWith [newChat 5, newChat 4] ''5'')
   \<and> storeInv (storeWith [newChat 5, newChat 4] ''5'')
   \<and> chatSessions (handleDeleteChat 6 True ''5'' (storeWith [newChat 5, newChat 4] ''5''))
        = [newChat 4]
   \<and> activeChatId (handleDeleteChat 6 True ''5'' (storeWith [newChat 5, newChat 4] ''5''))
        = Some ''4''
   \<and> appRun 4 emptyStorage [] = Some (storeWith [newChat 4] ''4'')
   \<and> chatSessions (handleDeleteChat 6 True ''4'' (storeWith [newChat 4] ''4'')) = [newChat 6]
   \<and> activeChatId (handleDeleteChat 6 True ''4'' (storeWith [newChat 4] ''4'')) = Some ''6''"
proof -
  have ids: "chat_id (newChat 4) = ''4''" "chat_id (newChat 5) = ''5''"
    "chat_id (newChat 6) = ''6''"
    by (simp_all add: chat_id_newChat toString_eval)
  have run2: "appRun 4 emptyStorage [NewChat 5] = Some (storeWith [newChat 5, newChat 4] ''5'')"
    by (simp add: appRun_def loadFromStorage_def loadSessions_def emptyStorage_def
          handleNewChat_def initialState_def storeWith_def ids)
  have run1: "appRun 4 emptyStorage [] = Some (storeWith [newChat 4] ''4'')"
    by (simp add: appRun_def loadFromStorage_def loadSessions_def emptyStorage_def
          handleNewChat_def initialState_def storeWith_def ids)
  have act2: "activeChatId (storeWith [newChat 5, newChat 4] ''5'') = Some ''5''"
    by (simp add: storeWith_def)
  have rem2: "filter (\<lambda>c. chat_id c \<noteq> ''5'') (chatSessions (storeWith [newChat 5, newChat 4] ''5''))
                = [newChat 4]"
    by (simp add: storeWith_def ids)
  have ne2: "filter (\<lambda>c. chat_id c \<noteq> ''5'') (chatSessions (storeWith [newChat 5, newChat 4] ''5''))
                \<noteq> []"
    using rem2 by simp
  have one: "chatSessions (storeWith [newChat 4] ''4'') = [newChat 4]"
    by (simp add: storeWith_def)
  note two = delete_keeps_active_selection[OF run2]
  note single = delete_keeps_active_selection[OF run1]
  have a: "storeInv (storeWith [newChat 5, newChat 4] ''5'')"
    using two by (rule conjunct1)
  note bc = two[THEN conjunct2, THEN conjunct1, rule_format, OF act2, THEN conjunct1,
      rule_format, OF ne2]
  have b: "chatSessions (handleDeleteChat 6 True ''5'' (storeWith [newChat 5, newChat 4] ''5''))
              = [newChat 4]"
    using bc[THEN conjunct1] rem2 by simp
  have c: "activeChatId (handleDeleteChat 6 True ''5'' (storeWith [newChat 5, newChat 4] ''5''))
              = Some ''4''"
    using bc[THEN conjunct2] rem2 ids by simp
  note d = single[THEN conjunct2, THEN conjunct2, THEN conjunct2, rule_format, OF one]
  have e: "chatSessions (handleDeleteChat 6 True ''4'' (storeWith [newChat 4] ''4'')) = [newChat 6]"
    using d[THEN conjunct1] ids by simp
  have f: "activeChatId (handleDeleteChat 6 True ''4'' (storeWith [newChat 4] ''4'')) = Some ''6''"
    using d[THEN conjunct2] ids by simp
  show ?thesis using run2 run1 a b c e f by simp
qed
section \<open>The generation controller\<close>

lemma find_updateActiveChat:
  assumes "\<And>c. chat_id (updater c) = chat_id c"
  shows "find (\<lambda>session. Some (chat_id session) = activeId) (updateActiveChat activeId updater sessions)
       = map_option updater (find (\<lambda>session. Some (chat_id session) = activeId) sessions)"
  by (induction sessions) (simp_all add: updateActiveChat_def assms)

lemma last_applyPatch:
  "messages \<noteq> [] \<Longrightarrow>
   last (applyPatch messageId p messages)
     = (if msg_id (last messages) = messageId then patchMessage p (last messages) else last messages)"
  by (simp add: applyPatch_def last_map)

lemma applyPatch_Nil_iff: "applyPatch messageId p messages = [] \<longleftrightarrow> messages = []"
  by (simp add: applyPatch_def)

lemma placeholderIn_patch:
  assumes "placeholderIn activeId sessions = Some m" "msg_id m = messageId"
  shows "placeholderIn activeId (patchActiveChat activeId messageId p sessions)
           = Some (patchMessage p m)"
proof -
  obtain chat where chat: "find (\<lambda>session. Some (chat_id session) = activeId) sessions = Some chat"
    "chat_messages chat \<noteq> []" "last (chat_messages chat) = m"
    using assms(1) by (auto simp: placeholderIn_def split: option.splits if_splits)
  have "find (\<lambda>session. Some (chat_id session) = activeId)
          (patchActiveChat activeId messageId p sessions)
        = Some (chat\<lparr>chat_messages := applyPatch messageId p (chat_messages chat)\<rparr>)"
    unfolding patchActiveChat_def by (subst find_updateActiveChat) (simp_all add: chat)
  then show ?thesis
    using chat assms(2) by (simp add: placeholderIn_def applyPatch_Nil_iff last_applyPatch)
qed

lemma placeholderIn_withPlaceholder:
  assumes "activeChat s = Some chat0"
  shows "placeholderIn (activeChatId s) (withPlaceholder now history chat0 s)
           = Some (modelMessage now)"
proof -
  have "find (\<lambda>session. Some (chat_id session) = activeChatId s)
          (withPlaceholder now history chat0 s)
        = Some (chat0\<lparr>chat_messages :=
                  (case history of Some h \<Rightarrow> h | None \<Rightarrow> chat_messages chat0) @ [modelMessage now]\<rparr>)"
    unfolding withPlaceholder_def Let_def
    by (subst find_updateActiveChat) (use assms in \<open>simp_all add: activeChat_def\<close>)
  then show ?thesis by (simp add: placeholderIn_def)
qed

lemma consumeStream_fullResponse:
  "fst (consumeStream activeId messageId chunks (fullResponse, packet, sessions))
     = fullResponse @ concat (chunkTexts chunks)"
  by (induction chunks arbitrary: fullResponse packet sessions)
     (auto simp: appendChunk_def chunkTexts_def split: option.splits)

lemma consumeStream_packet:
  "fst (snd (consumeStream activeId messageId chunks (fullResponse, packet, sessions)))
     = (if chunks = [] then packet else Some (last chunks))"
  by (induction chunks arbitrary: fullResponse packet sessions)
     (auto simp: appendChunk_def split: option.splits)

lemma consumeStream_placeholder:
  assumes "placeholderIn activeId sessions = Some m" "msg_id m = messageId"
    "msg_content m = fullResponse"
  shows "placeholderIn activeId
           (snd (snd (consumeStream activeId messageId chunks (fullResponse, packet, sessions))))
         = Some (m\<lparr>msg_content := fullResponse @ concat (chunkTexts chunks)\<rparr>)"
  using assms
proof (induction chunks arbitrary: fullResponse packet sessions m)
  case Nil
  then show ?case by (simp add: chunkTexts_def)
next
  case (Cons chunk chunks)
  show ?case
  proof (cases "truthy (resp_text chunk)")
    case False
    then have step: "appendChunk activeId messageId chunk (fullResponse, packet, sessions)
                 = (fullResponse, Some chunk, sessions)"
      by (auto simp: appendChunk_def truthy_def split: option.splits)
    from False have texts: "chunkTexts (chunk # chunks) = chunkTexts chunks"
      by (auto simp: chunkTexts_def truthy_def split: option.splits)
    show ?thesis using Cons.IH[OF Cons.prems] step texts by simp
  next
    case True
    then obtain t where t: "resp_text chunk = Some t" "t \<noteq> []"
      by (auto simp: truthy_def split: option.splits)
    then have step: "appendChunk activeId messageId chunk (fullResponse, packet, sessions)
                 = (fullResponse @ t, Some chunk,
                    patchActiveChat activeId messageId (SetContent (fullResponse @ t)) sessions)"
      by (simp add: appendChunk_def)
    from t have texts: "chunkTexts (chunk # chunks) = t # chunkTexts chunks"
      by (simp add: chunkTexts_def)
    have p: "placeholderIn activeId
               (patchActiveChat activeId messageId (SetContent (fullResponse @ t)) sessions)
             = Some (m\<lparr>msg_content := fullResponse @ t\<rparr>)"
      using placeholderIn_patch[OF Cons.prems(1,2), of "SetContent (fullResponse @ t)"] by simp
    have "placeholderIn activeId
            (snd (snd (consumeStream activeId messageId chunks
               (fullResponse @ t, Some chunk,
                patchActiveChat activeId messageId (SetContent (fullResponse @ t)) sessions))))
          = Some (m\<lparr>msg_content := fullResponse @ t\<rparr>
                   \<lparr>msg_content := (fullResponse @ t) @ concat (chunkTexts chunks)\<rparr>)"
      by (rule Cons.IH[OF p]) (simp_all add: Cons.prems)
    then show ?thesis using step texts by simp
  qed
qed

lemma submitPrompt_unfold:
  assumes "\<not> isLoading s" "activeChat s = Some chat0" "truthy (env_apiKey env)"
  shows "submitPrompt env prompt images history s
    = (s\<lparr>isLoading := False,
         chatSessions :=
           tryBlock (activeChatId s) (msg_id (modelMessage (env_now env)))
             (snd (streamResponse (env_sendMessageStream env) prompt images
                     (env_abortedAtStart env)))
             (withPlaceholder (env_now env) history chat0 s)\<rparr>, None)"
  using assms
  by (simp add: submitPrompt_def Let_def initializeChat_def getAiClient_def)

text \<open>
  Without an API key \<^verbatim>\<open>initializeChat\<close> throws before the \<^verbatim>\<open>try\<close> block is entered: the
  call rejects and the state stays loading with an empty placeholder. The mount effect of
  the component calls \<^verbatim>\<open>initializeChat\<close> as well, so the statements below are about
  generations with an API key.
\<close>

lemma submitPrompt_without_api_key:
  assumes "\<not> isLoading s" "activeChat s = Some chat0" "\<not> truthy (env_apiKey env)"
  shows "submitPrompt env prompt images history s
    = (s\<lparr>isLoading := True, chatSessions := withPlaceholder (env_now env) history chat0 s\<rparr>,
       Some (JsError ''Error'' ''Gemini API key is not configured. Please ensure the API_KEY environment variable is set.''))"
  using assms
  by (simp add: submitPrompt_def Let_def initializeChat_def getAiClient_def)

lemma tryBlock_success:
  "tryBlock activeId messageId (Inr (chunks, None)) sessions
     = attachSources activeId messageId (if chunks = [] then None else Some (last chunks))
         (sessionsAfterLoop activeId messageId (Inr (chunks, None)) sessions)"
proof -
  obtain full packet sessions' where
    c: "consumeStream activeId messageId chunks ([], None, sessions) = (full, packet, sessions')"
    by (cases "consumeStream activeId messageId chunks ([], None, sessions)") auto
  have "packet = (if chunks = [] then None else Some (last chunks))"
    using consumeStream_packet[of activeId messageId chunks "[]" None sessions] c by simp
  with c show ?thesis by (simp add: tryBlock_def sessionsAfterLoop_def)
qed

lemma tryBlock_failure:
  assumes "failureOf response = Some e"
  shows "tryBlock activeId messageId response sessions
     = catchBlock activeId messageId e (sessionsAfterLoop activeId messageId response sessions)"
proof (cases response)
  case (Inl e')
  with assms show ?thesis by (simp add: tryBlock_def sessionsAfterLoop_def failureOf_def)
next
  case (Inr stream)
  obtain full packet sessions' where
    c: "consumeStream activeId messageId (fst stream) ([], None, sessions) = (full, packet, sessions')"
    by (cases "consumeStream activeId messageId (fst stream) ([], None, sessions)") auto
  with Inr assms show ?thesis by (simp add: tryBlock_def sessionsAfterLoop_def failureOf_def)
qed

lemma placeholderIn_attachSources:
  assumes "placeholderIn activeId sessions = Some m" "msg_id m = messageId"
  shows "\<exists>m'. placeholderIn activeId (attachSources activeId messageId packet sessions) = Some m'
           \<and> msg_id m' = msg_id m \<and> msg_role m' = msg_role m
           \<and> msg_content m' = msg_content m \<and> msg_imageUrls m' = msg_imageUrls m"
  using assms placeholderIn_patch[OF assms]
  by (auto simp: attachSources_def split: option.splits)

lemma placeholderOf_submitPrompt_completed:
  assumes "\<not> isLoading s" "activeChat s = Some chat0" "truthy (env_apiKey env)"
    and "snd (streamResponse (env_sendMessageStream env) prompt images (env_abortedAtStart env))
           = Inr (chunks, None)"
  shows "\<exists>m. placeholderOf (fst (submitPrompt env prompt images history s)) = Some m
           \<and> msg_id m = msg_id (modelMessage (env_now env))
           \<and> msg_role m = MODEL
           \<and> msg_content m = concat (chunkTexts chunks)"
proof -
  let ?aid = "activeChatId s" and ?mid = "msg_id (modelMessage (env_now env))"
  let ?s0 = "withPlaceholder (env_now env) history chat0 s"
  have p0: "placeholderIn ?aid ?s0 = Some (modelMessage (env_now env))"
    by (rule placeholderIn_withPlaceholder[OF assms(2)])
  have p1: "placeholderIn ?aid (sessionsAfterLoop ?aid ?mid (Inr (chunks, None)) ?s0)
              = Some ((modelMessage (env_now env))\<lparr>msg_content := [] @ concat (chunkTexts chunks)\<rparr>)"
    unfolding sessionsAfterLoop_def
    using consumeStream_placeholder[OF p0, of ?mid "[]" chunks None]
    by (simp add: modelMessage_def)
  obtain m' where m': "placeholderIn ?aid
        (attachSources ?aid ?mid (if chunks = [] then None else Some (last chunks))
           (sessionsAfterLoop ?aid ?mid (Inr (chunks, None)) ?s0)) = Some m'"
      "msg_id m' = ?mid" "msg_role m' = MODEL" "msg_content m' = concat (chunkTexts chunks)"
    using placeholderIn_attachSources[OF p1, of ?mid "if chunks = [] then None else Some (last chunks)"]
    by (auto simp: modelMessage_def)
  have "fst (submitPrompt env prompt images history s)
      = s\<lparr>isLoading := False,
          chatSessions := attachSources ?aid ?mid (if chunks = [] then None else Some (last chunks))
             (sessionsAfterLoop ?aid ?mid (Inr (chunks, None)) ?s0)\<rparr>"
    using submitPrompt_unfold[OF assms(1,2,3)] assms(4) tryBlock_success by simp
  with m' show ?thesis by (simp add: placeholderOf_def)
qed

lemma wrappedStream_no_abort:
  "\<forall>x \<in> set items. \<not> fst x \<Longrightarrow> wrappedStream items fin = (map snd items, fin)"
  by (induction items) auto

lemma wrappedStream_abort:
  "\<forall>x \<in> set pre. \<not> fst x \<Longrightarrow>
   wrappedStream (pre @ (True, chunk) # rest) fin = (map snd pre, None)"
  by (induction pre) auto

lemma streamResponse_sent:
  assumes "\<not> abortedAtStart"
    and "sendMessageStream (requestParts prompt images) = Inr (items, fin)"
  shows "streamResponse sendMessageStream prompt images abortedAtStart
           = ([requestParts prompt images], Inr (wrappedStream items fin))"
  using assms by (simp add: streamResponse_def requestParts_def Let_def)

lemma placeholderIn_sessionsAfterLoop:
  assumes "placeholderIn activeId sessions = Some m" "msg_id m = messageId" "msg_content m = []"
  shows "placeholderIn activeId (sessionsAfterLoop activeId messageId response sessions)
           = Some (m\<lparr>msg_content := concat (chunkTexts (consumedChunks response))\<rparr>)"
proof (cases response)
  case (Inl e)
  with assms show ?thesis
    by (simp add: sessionsAfterLoop_def consumedChunks_def chunkTexts_def)
next
  case (Inr stream)
  then show ?thesis
    using consumeStream_placeholder[OF assms, of "fst stream" None]
    by (simp add: sessionsAfterLoop_def consumedChunks_def)
qed

lemma patchActiveChat_length:
  "length (patchActiveChat activeId messageId p sessions) = length sessions"
  by (simp add: patchActiveChat_def updateActiveChat_def)

lemma patchActiveChat_nth:
  "i < length sessions \<Longrightarrow>
   patchActiveChat activeId messageId p sessions ! i
     = (if Some (chat_id (sessions ! i)) = activeId
        then (sessions ! i)\<lparr>chat_messages := applyPatch messageId p (chat_messages (sessions ! i))\<rparr>
        else sessions ! i)"
  by (simp add: patchActiveChat_def updateActiveChat_def)

lemma patchActiveChat_frame:
  "length (patchActiveChat activeId messageId p sessions) = length sessions
   \<and> (\<forall>i < length sessions.
         (Some (chat_id (sessions ! i)) \<noteq> activeId \<longrightarrow>
            patchActiveChat activeId messageId p sessions ! i = sessions ! i)
         \<and> (\<forall>j < length (chat_messages (sessions ! i)).
               msg_id (chat_messages (sessions ! i) ! j) \<noteq> messageId \<longrightarrow>
               chat_messages (patchActiveChat activeId messageId p sessions ! i) ! j
                 = chat_messages (sessions ! i) ! j))"
  by (simp add: patchActiveChat_length patchActiveChat_nth applyPatch_nth_other)

lemma withoutSources_patch:
  "map withoutSources (patchActiveChat activeId messageId (SetSources srcs) sessions)
     = map withoutSources sessions"
  by (induction sessions)
     (simp_all add: patchActiveChat_def updateActiveChat_def withoutSources_def applyPatch_def
        comp_def)

lemma withoutSources_attachSources:
  "map withoutSources (attachSources activeId messageId packet sessions)
     = map withoutSources sessions"
  by (simp add: attachSources_def withoutSources_patch split: option.splits)

subsection \<open>Evaluation on the concrete inputs\<close>

lemma newChat_ids: "chat_id (newChat 4) = ''4''" "chat_id (newChat 5) = ''5''"
  "chat_id (newChat 6) = ''6''"
  by (simp_all add: chat_id_newChat toString_eval)

lemma modelMessage_7: "modelMessage 7 = placeholderWith [] []"
  by (simp add: modelMessage_def placeholderWith_def toString_eval)

lemma oneChatStore_ready:
  "\<not> isLoading oneChatStore" "activeChat oneChatStore = Some (newChat 4)"
  "activeChatId oneChatStore = Some ''4''" "chatSessions oneChatStore = [newChat 4]"
  by (simp_all add: oneChatStore_def storeWith_def activeChat_def newChat_ids)

lemma twoChatStore_ready:
  "\<not> isLoading twoChatStore" "activeChat twoChatStore = Some (newChat 5)"
  "activeChatId twoChatStore = Some ''5''" "chatSessions twoChatStore = [newChat 5, newChat 4]"
  by (simp_all add: twoChatStore_def storeWith_def activeChat_def newChat_ids)

lemma streamingEnv_fields:
  "env_now (streamingEnv stream) = 7" "truthy (env_apiKey (streamingEnv stream))"
  "\<not> env_abortedAtStart (streamingEnv stream)"
  "env_sendMessageStream (streamingEnv stream) parts = Inr stream"
  by (simp_all add: streamingEnv_def truthy_def)

lemmas run_eval =
  tryBlock_def appendChunk_def patchActiveChat_def updateActiveChat_def applyPatch_def
  attachSources_def extractSources_def withPlaceholder_def catchBlock_def isAbortError_def
  streamResponse_def textChunk_def sourcedChunk_def sessionsAfterLoop_def truthy_def
  placeholderOf_def placeholderIn_def newChat_ids modelMessage_7 placeholderWith_def

lemma cancelEnv_response:
  "snd (streamResponse (env_sendMessageStream cancelEnv) ''Hi'' None (env_abortedAtStart cancelEnv))
     = Inr ([sourcedChunk ''Hel'' ''https://example.org'' ''Example''], None)"
  by (simp add: cancelEnv_def streamingEnv_fields streamResponse_def)

lemma cancelEnv_observed:
  "sessionsAfterLoop (activeChatId oneChatStore) (msg_id (modelMessage (env_now cancelEnv)))
     (Inr ([sourcedChunk ''Hel'' ''https://example.org'' ''Example''], None))
     (withPlaceholder (env_now cancelEnv) (Some []) (newChat 4) oneChatStore)
   = [(newChat 4)\<lparr>chat_messages := [placeholderWith ''Hel'' []]\<rparr>]"
  by (simp add: cancelEnv_def streamingEnv_fields oneChatStore_ready run_eval)

lemma cancelEnv_final:
  "chatSessions (fst (submitPrompt cancelEnv ''Hi'' None (Some []) oneChatStore))
   = [(newChat 4)\<lparr>chat_messages := [placeholderWith ''Hel'' [exampleSource]]\<rparr>]"
proof -
  have h3: "truthy (env_apiKey cancelEnv)"
    by (simp add: cancelEnv_def streamingEnv_fields)
  show ?thesis
    unfolding submitPrompt_unfold[OF oneChatStore_ready(1,2) h3] cancelEnv_response
    by (simp add: cancelEnv_def streamingEnv_fields oneChatStore_ready run_eval exampleSource_def)
qed

lemma failingEnv_response:
  "snd (streamResponse (env_sendMessageStream failingEnv) ''Hi'' None (env_abortedAtStart failingEnv))
     = Inr ([textChunk ''Hel''], Some (JsError ''TypeError'' ''network down''))"
  by (simp add: failingEnv_def streamingEnv_fields streamResponse_def)

lemma failingEnv_final:
  "chatSessions (fst (submitPrompt failingEnv ''Hi'' None (Some [userHi]) twoChatStore))
   = [(newChat 5)\<lparr>chat_messages := [userHi, placeholderWith errorBlock []]\<rparr>, newChat 4]"
proof -
  have h3: "truthy (env_apiKey failingEnv)"
    by (simp add: failingEnv_def streamingEnv_fields)
  show ?thesis
    unfolding submitPrompt_unfold[OF twoChatStore_ready(1,2) h3] failingEnv_response
    by (simp add: failingEnv_def streamingEnv_fields twoChatStore_ready run_eval userHi_def
          errorContent_def errorBlock_def)
qed

subsection \<open>Streaming, cancellation and failure\<close>

text \<open>
  C1. A generation starts in a state that is not loading and has an active session, with
  an API key; \<^verbatim>\<open>streamResponse\<close> returns a generator that delivers the packets \<open>chunks\<close>
  and ends without an error. Then, when \<^verbatim>\<open>submitPrompt\<close> has settled, the last message of
  the active session is the placeholder (it has the id made at the start) and its content
  is the concatenation of the non-empty packet texts in the order of delivery.
\<close>

theorem streamed_content_is_concatenation:
  assumes "\<not> isLoading s" "activeChat s = Some chat0" "truthy (env_apiKey env)"
    and "snd (streamResponse (env_sendMessageStream env) prompt images (env_abortedAtStart env))
           = Inr (chunks, None)"
  shows "\<exists>m. placeholderOf (fst (submitPrompt env prompt images history s)) = Some m
           \<and> msg_id m = msg_id (modelMessage (env_now env))
           \<and> msg_content m = concat (chunkTexts chunks)"
  using placeholderOf_submitPrompt_completed[OF assms] by blast

theorem streamed_content_is_concatenation_witness:
  "\<not> isLoading oneChatStore \<and> activeChat oneChatStore = Some (newChat 4)
   \<and> truthy (env_apiKey helloEnv)
   \<and> snd (streamResponse (env_sendMessageStream helloEnv) ''Hi'' None (env_abortedAtStart helloEnv))
        = Inr ([textChunk ''Hel'', textChunk ''lo!''], None)
   \<and> (\<exists>m. placeholderOf (fst (submitPrompt helloEnv ''Hi'' None (Some []) oneChatStore)) = Some m
          \<and> msg_id m = msg_id (modelMessage (env_now helloEnv))
          \<and> msg_content m = concat (chunkTexts [textChunk ''Hel'', textChunk ''lo!'']))
   \<and> concat (chunkTexts [textChunk ''Hel'', textChunk ''lo!'']) = ''Hello!''
   \<and> map chat_messages (chatSessions (fst (submitPrompt helloEnv ''Hi'' None (Some []) oneChatStore)))
        = [[placeholderWith ''Hello!'' []]]"
proof -
  have h3: "truthy (env_apiKey helloEnv)"
    by (simp add: helloEnv_def streamingEnv_fields)
  have h4: "snd (streamResponse (env_sendMessageStream helloEnv) ''Hi'' None
                   (env_abortedAtStart helloEnv))
              = Inr ([textChunk ''Hel'', textChunk ''lo!''], None)"
    by (simp add: helloEnv_def streamingEnv_fields streamResponse_def)
  have texts: "concat (chunkTexts [textChunk ''Hel'', textChunk ''lo!'']) = ''Hello!''"
    by (simp add: chunkTexts_def textChunk_def)
  have run: "map chat_messages
               (chatSessions (fst (submitPrompt helloEnv ''Hi'' None (Some []) oneChatStore)))
             = [[placeholderWith ''Hello!'' []]]"
    unfolding submitPrompt_unfold[OF oneChatStore_ready(1,2) h3] h4
    by (simp add: helloEnv_def streamingEnv_fields oneChatStore_ready run_eval)
  show ?thesis
    using oneChatStore_ready(1,2) h3 h4 texts run
      streamed_content_is_concatenation[OF oneChatStore_ready(1,2) h3 h4, of "Some []"]
    by simp
qed

text \<open>
  C2, as stated, fails: the abort signal is seen when the second packet arrives, and after
  that the sources of the first packet are attached to the placeholder.
\<close>

theorem cancelled_generation_counterexample:
  "sessionsAfterLoop (activeChatId oneChatStore) (msg_id (modelMessage (env_now cancelEnv)))
     (snd (streamResponse (env_sendMessageStream cancelEnv) ''Hi'' None
             (env_abortedAtStart cancelEnv)))
     (withPlaceholder (env_now cancelEnv) (Some []) (newChat 4) oneChatStore)
     = [(newChat 4)\<lparr>chat_messages := [placeholderWith ''Hel'' []]\<rparr>]
   \<and> chatSessions (fst (submitPrompt cancelEnv ''Hi'' None (Some []) oneChatStore))
     = [(newChat 4)\<lparr>chat_messages := [placeholderWith ''Hel'' [exampleSource]]\<rparr>]
   \<and> placeholderWith ''Hel'' [exampleSource] \<noteq> placeholderWith ''Hel'' []"
  using cancelEnv_observed cancelEnv_final
  by (simp add: cancelEnv_response placeholderWith_def)

text \<open>
  C2, amended. The SDK stream delivers the packets \<open>pre\<close> with the signal not aborted and
  then a packet with the signal aborted. Then the call settles without an error and not
  loading; when the loop is left the content of the placeholder is the concatenation of
  the texts of \<open>pre\<close>, and so it is at the end; the final sessions are the observed ones with
  the grounding sources of the last packet of \<open>pre\<close> attached, if it has any; apart from
  grounding sources no session and no message differs from the observed ones.
\<close>

theorem cancelled_generation_keeps_content:
  assumes "\<not> isLoading s" "activeChat s = Some chat0" "truthy (env_apiKey env)"
    and "\<not> env_abortedAtStart env"
    and "env_sendMessageStream env (requestParts prompt images)
           = Inr (pre @ (True, chunk) # rest, fin)"
    and "\<forall>x \<in> set pre. \<not> fst x"
    and "observed = sessionsAfterLoop (activeChatId s) (msg_id (modelMessage (env_now env)))
                      (Inr (map snd pre, None))
                      (withPlaceholder (env_now env) history chat0 s)"
    and "final = submitPrompt env prompt images history s"
  shows "snd final = None \<and> \<not> isLoading (fst final)
    \<and> (\<exists>m. placeholderIn (activeChatId s) observed = Some m
            \<and> msg_content m = concat (chunkTexts (map snd pre)))
    \<and> (\<exists>m. placeholderOf (fst final) = Some m
            \<and> msg_content m = concat (chunkTexts (map snd pre)))
    \<and> chatSessions (fst final)
         = attachSources (activeChatId s) (msg_id (modelMessage (env_now env)))
             (if pre = [] then None else Some (snd (last pre))) observed
    \<and> map withoutSources (chatSessions (fst final)) = map withoutSources observed"
proof -
  let ?aid = "activeChatId s" and ?mid = "msg_id (modelMessage (env_now env))"
  let ?s0 = "withPlaceholder (env_now env) history chat0 s"
  have resp: "snd (streamResponse (env_sendMessageStream env) prompt images (env_abortedAtStart env))
           = Inr (map snd pre, None)"
    using streamResponse_sent[of "env_abortedAtStart env" "env_sendMessageStream env" prompt images
        "pre @ (True, chunk) # rest" fin] assms(4,5) wrappedStream_abort[OF assms(6)]
    by simp
  have fin: "final = (s\<lparr>isLoading := False,
         chatSessions := attachSources ?aid ?mid
             (if map snd pre = [] then None else Some (last (map snd pre))) observed\<rparr>, None)"
    using submitPrompt_unfold[OF assms(1,2,3)] resp tryBlock_success assms(7,8) by simp
  have p0: "placeholderIn ?aid ?s0 = Some (modelMessage (env_now env))"
    by (rule placeholderIn_withPlaceholder[OF assms(2)])
  have obs: "placeholderIn ?aid observed
      = Some ((modelMessage (env_now env))\<lparr>msg_content := concat (chunkTexts (map snd pre))\<rparr>)"
    unfolding assms(7)
    using placeholderIn_sessionsAfterLoop[OF p0, of ?mid "Inr (map snd pre, None)"]
    by (simp add: modelMessage_def consumedChunks_def)
  have "\<exists>m. placeholderOf (fst final) = Some m
            \<and> msg_content m = concat (chunkTexts (map snd pre))"
    using placeholderOf_submitPrompt_completed[OF assms(1,2,3) resp, of history] assms(8)
    by blast
  moreover have "(if map snd pre = [] then None else Some (last (map snd pre)))
           = (if pre = [] then None else Some (snd (last pre)))"
    by (simp add: last_map)
  ultimately show ?thesis
    using fin obs by (simp add: withoutSources_attachSources)
qed

theorem cancelled_generation_keeps_content_witness:
  "\<not> isLoading oneChatStore \<and> activeChat oneChatStore = Some (newChat 4)
   \<and> truthy (env_apiKey cancelEnv) \<and> \<not> env_abortedAtStart cancelEnv
   \<and> env_sendMessageStream cancelEnv (requestParts ''Hi'' None)
        = Inr ([(False, sourcedChunk ''Hel'' ''https://example.org'' ''Example'')]
                 @ (True, textChunk ''lo!'') # [], None)
   \<and> list_all (\<lambda>x. \<not> fst x) [(False, sourcedChunk ''Hel'' ''https://example.org'' ''Example'')]
   \<and> snd (submitPrompt cancelEnv ''Hi'' None (Some []) oneChatStore) = None
   \<and> (\<exists>m. placeholderOf (fst (submitPrompt cancelEnv ''Hi'' None (Some []) oneChatStore)) = Some m
          \<and> msg_content m
              = concat (chunkTexts
                  (map snd [(False, sourcedChunk ''Hel'' ''https://example.org'' ''Example'')])))
   \<and> concat (chunkTexts (map snd [(False, sourcedChunk ''Hel'' ''https://example.org'' ''Example'')]))
        = ''Hel''
   \<and> map chat_messages (chatSessions (fst (submitPrompt cancelEnv ''Hi'' None (Some []) oneChatStore)))
        = [[placeholderWith ''Hel'' [exampleSource]]]"
proof -
  have h3: "truthy (env_apiKey cancelEnv)" and h4: "\<not> env_abortedAtStart cancelEnv"
    by (simp_all add: cancelEnv_def streamingEnv_fields)
  have h5: "env_sendMessageStream cancelEnv (requestParts ''Hi'' None)
        = Inr ([(False, sourcedChunk ''Hel'' ''https://example.org'' ''Example'')]
                 @ (True, textChunk ''lo!'') # [], None)"
    by (simp add: cancelEnv_def streamingEnv_fields)
  have h6: "\<forall>x \<in> set [(False, sourcedChunk ''Hel'' ''https://example.org'' ''Example'')]. \<not> fst x"
    by simp
  have texts: "concat (chunkTexts
      (map snd [(False, sourcedChunk ''Hel'' ''https://example.org'' ''Example'')])) = ''Hel''"
    by (simp add: chunkTexts_def sourcedChunk_def)
  note t = cancelled_generation_keeps_content[OF oneChatStore_ready(1,2) h3 h4 h5 h6 refl refl,
      of "Some []"]
  have a: "snd (submitPrompt cancelEnv ''Hi'' None (Some []) oneChatStore) = None"
    using t by (rule conjunct1)
  have b: "\<exists>m. placeholderOf (fst (submitPrompt cancelEnv ''Hi'' None (Some []) oneChatStore)) = Some m
          \<and> msg_content m
              = concat (chunkTexts
                  (map snd [(False, sourcedChunk ''Hel'' ''https://example.org'' ''Example'')]))"
    using t by blast
  show ?thesis
    using oneChatStore_ready(1,2) h3 h4 h5 h6 a b texts cancelEnv_final by simp
qed

lemma sameExceptMessage_applyPatch:
  "sameExceptMessage messageId messages (applyPatch messageId p messages)"
  unfolding sameExceptMessage_def applyPatch_def
  by (induction messages) simp_all

lemma sameExceptMessage_refl: "sameExceptMessage messageId messages messages"
  unfolding sameExceptMessage_def by (induction messages) simp_all

lemma sameExceptPlaceholder_patch:
  "sameExceptPlaceholder activeId messageId sessions
     (patchActiveChat activeId messageId p sessions)"
  unfolding sameExceptPlaceholder_def patchActiveChat_def updateActiveChat_def
  by (induction sessions)
     (simp_all add: sameExceptMessage_applyPatch sameExceptMessage_refl)

lemma streamResponse_request_failed:
  assumes "\<not> abortedAtStart" "sendMessageStream (requestParts prompt images) = Inl e"
  shows "snd (streamResponse sendMessageStream prompt images abortedAtStart)
           = (if isAbortError e then Inr ([], None) else Inl requestFailedError)"
  using assms by (simp add: streamResponse_def Let_def requestFailedError_def)

lemma requestFailedError_not_abort: "\<not> isAbortError requestFailedError"
  by (simp add: requestFailedError_def isAbortError_def)

lemma submitPrompt_failed:
  assumes "\<not> isLoading s" "activeChat s = Some chat0" "truthy (env_apiKey env)"
    and "snd (streamResponse (env_sendMessageStream env) prompt images (env_abortedAtStart env))
           = response"
    and "failureOf response = Some e"
  shows "submitPrompt env prompt images history s
    = (s\<lparr>isLoading := False,
         chatSessions :=
           catchBlock (activeChatId s) (msg_id (modelMessage (env_now env))) e
             (sessionsAfterLoop (activeChatId s) (msg_id (modelMessage (env_now env))) response
                (withPlaceholder (env_now env) history chat0 s))\<rparr>, None)"
  using submitPrompt_unfold[OF assms(1,2,3)] tryBlock_failure[OF assms(5)] assms(4) by simp

lemma placeholder_after_error:
  assumes "activeChat s = Some chat0" "\<not> isAbortError e"
    and "before = sessionsAfterLoop (activeChatId s) (msg_id (modelMessage now)) response
                    (withPlaceholder now history chat0 s)"
  shows "map_option msg_content
           (placeholderIn (activeChatId s)
              (catchBlock (activeChatId s) (msg_id (modelMessage now)) e before))
         = Some (errorContent e)"
proof -
  have p0: "placeholderIn (activeChatId s) (withPlaceholder now history chat0 s)
              = Some (modelMessage now)"
    by (rule placeholderIn_withPlaceholder[OF assms(1)])
  have pb: "placeholderIn (activeChatId s) before
      = Some ((modelMessage now)\<lparr>msg_content := concat (chunkTexts (consumedChunks response))\<rparr>)"
    unfolding assms(3)
    using placeholderIn_sessionsAfterLoop[OF p0, of "msg_id (modelMessage now)" response]
    by (simp add: modelMessage_def)
  show ?thesis
    using placeholderIn_patch[OF pb, of "msg_id (modelMessage now)" "SetContent (errorContent e)"]
      assms(2)
    by (simp add: catchBlock_def modelMessage_def)
qed

lemma twoChat_placed:
  "withPlaceholder 7 (Some [userHi]) (newChat 5) twoChatStore
     = [(newChat 5)\<lparr>chat_messages := [userHi, placeholderWith [] []]\<rparr>, newChat 4]"
  by (simp add: withPlaceholder_def updateActiveChat_def twoChatStore_ready newChat_ids
        modelMessage_7)

lemma failedRequestEnv_fields:
  "env_now failedRequestEnv = 7" "truthy (env_apiKey failedRequestEnv)"
  "\<not> env_abortedAtStart failedRequestEnv"
  "env_sendMessageStream failedRequestEnv parts = Inl (JsError ''TypeError'' ''fetch failed'')"
  by (simp_all add: failedRequestEnv_def truthy_def)

lemma noKeyEnv_fields:
  "env_now noKeyEnv = 7" "\<not> truthy (env_apiKey noKeyEnv)"
  by (simp_all add: noKeyEnv_def streamingEnv_def truthy_def)

lemma failedRequestEnv_final:
  "chatSessions (fst (submitPrompt failedRequestEnv ''Hi'' None (Some [userHi]) twoChatStore))
   = [(newChat 5)\<lparr>chat_messages := [userHi, placeholderWith requestBlock []]\<rparr>, newChat 4]"
  unfolding submitPrompt_unfold[OF twoChatStore_ready(1,2) failedRequestEnv_fields(2)]
  by (simp add: failedRequestEnv_fields twoChatStore_ready run_eval userHi_def requestParts_def
        errorContent_def requestBlock_def)

lemma lateErrorEnv_final:
  "chatSessions (fst (submitPrompt lateErrorEnv ''Hi'' None (Some [userHi]) twoChatStore))
   = [(newChat 5)\<lparr>chat_messages := [userHi, placeholderWith ''Hel'' []]\<rparr>, newChat 4]"
proof -
  have h3: "truthy (env_apiKey lateErrorEnv)"
    by (simp add: lateErrorEnv_def streamingEnv_fields)
  show ?thesis
    unfolding submitPrompt_unfold[OF twoChatStore_ready(1,2) h3]
    by (simp add: lateErrorEnv_def streamingEnv_fields twoChatStore_ready run_eval userHi_def
          requestParts_def)
qed

text \<open>
  C9, as stated, fails. The abort signal is never fired and the stream throws an error
  named AbortError after one packet: the placeholder keeps the text "Hel", no error block
  is written. And without an API key \<^verbatim>\<open>initializeChat\<close> throws before the \<^verbatim>\<open>try\<close> block:
  the call rejects, the placeholder stays empty and the state stays loading.
\<close>

theorem unhandled_failure_counterexample:
  "\<not> env_abortedAtStart abortErrorEnv
   \<and> env_sendMessageStream abortErrorEnv (requestParts ''Hi'' None)
       = Inr ([(False, textChunk ''Hel'')], Some (JsError ''AbortError'' ''aborted''))
   \<and> submitPrompt abortErrorEnv ''Hi'' None (Some [userHi]) twoChatStore
       = (twoChatStore\<lparr>isLoading := False,
            chatSessions :=
              [(newChat 5)\<lparr>chat_messages := [userHi, placeholderWith ''Hel'' []]\<rparr>, newChat 4]\<rparr>,
          None)
   \<and> ''Hel'' \<noteq> errorContent (JsError ''AbortError'' ''aborted'')
   \<and> submitPrompt noKeyEnv ''Hi'' None (Some [userHi]) twoChatStore
       = (twoChatStore\<lparr>isLoading := True,
            chatSessions :=
              [(newChat 5)\<lparr>chat_messages := [userHi, placeholderWith [] []]\<rparr>, newChat 4]\<rparr>,
          Some (JsError ''Error'' ''Gemini API key is not configured. Please ensure the API_KEY environment variable is set.''))"
proof -
  have h3: "truthy (env_apiKey abortErrorEnv)"
    by (simp add: abortErrorEnv_def streamingEnv_fields)
  have a: "submitPrompt abortErrorEnv ''Hi'' None (Some [userHi]) twoChatStore
       = (twoChatStore\<lparr>isLoading := False,
            chatSessions :=
              [(newChat 5)\<lparr>chat_messages := [userHi, placeholderWith ''Hel'' []]\<rparr>, newChat 4]\<rparr>,
          None)"
    unfolding submitPrompt_unfold[OF twoChatStore_ready(1,2) h3]
    by (simp add: abortErrorEnv_def streamingEnv_fields twoChatStore_ready run_eval userHi_def
          requestParts_def)
  have b: "submitPrompt noKeyEnv ''Hi'' None (Some [userHi]) twoChatStore
       = (twoChatStore\<lparr>isLoading := True,
            chatSessions :=
              [(newChat 5)\<lparr>chat_messages := [userHi, placeholderWith [] []]\<rparr>, newChat 4]\<rparr>,
          Some (JsError ''Error'' ''Gemini API key is not configured. Please ensure the API_KEY environment variable is set.''))"
    unfolding submitPrompt_without_api_key[OF twoChatStore_ready(1,2) noKeyEnv_fields(2)]
    by (simp add: noKeyEnv_fields twoChat_placed)
  show ?thesis
    using a b
    by (simp add: abortErrorEnv_def streamingEnv_fields errorContent_def)
qed

text \<open>
  C9, amended. A generation starts in a state that is not loading and has an active
  session, with an API key and the signal not aborted. The call settles without an error
  and not loading. If the request is rejected with an error not named AbortError, the
  content of the placeholder becomes the error block for the error that
  \<^verbatim>\<open>streamResponse\<close> throws in its place; if the stream, with the signal never seen
  aborted, throws an error not named AbortError after some packets, the content becomes
  the error block for that error; in both cases the sessions are those at the end of the
  loop with that one content patch, so only messages with the placeholder's id in sessions
  with the active id can differ. If the signal is seen aborted after the packets \<open>pre\<close>,
  the content is the concatenation of their texts, whatever the stream would have done
  later. If the stream throws an error named AbortError, the sessions stay as they were at
  the end of the loop, and if the request is rejected with such an error they stay as they
  were when the placeholder was appended.
\<close>

theorem generation_failure_outcome:
  assumes "\<not> isLoading s" "activeChat s = Some chat0" "truthy (env_apiKey env)"
    and "\<not> env_abortedAtStart env"
    and "sent = env_sendMessageStream env (requestParts prompt images)"
    and "placed = withPlaceholder (env_now env) history chat0 s"
    and "final = submitPrompt env prompt images history s"
    and "aid = activeChatId s" and "mid = msg_id (modelMessage (env_now env))"
  shows "snd final = None \<and> \<not> isLoading (fst final)
    \<and> (\<forall>e. sent = Inl e \<longrightarrow> \<not> isAbortError e \<longrightarrow>
          chatSessions (fst final)
            = patchActiveChat aid mid (SetContent (errorContent requestFailedError)) placed
          \<and> map_option msg_content (placeholderOf (fst final))
              = Some (errorContent requestFailedError)
          \<and> sameExceptPlaceholder aid mid placed (chatSessions (fst final)))
    \<and> (\<forall>items e. sent = Inr (items, Some e) \<longrightarrow> list_all (\<lambda>x. \<not> fst x) items \<longrightarrow>
          \<not> isAbortError e \<longrightarrow>
          chatSessions (fst final)
            = patchActiveChat aid mid (SetContent (errorContent e))
                (sessionsAfterLoop aid mid (Inr (map snd items, Some e)) placed)
          \<and> map_option msg_content (placeholderOf (fst final)) = Some (errorContent e)
          \<and> sameExceptPlaceholder aid mid
                (sessionsAfterLoop aid mid (Inr (map snd items, Some e)) placed)
                (chatSessions (fst final)))
    \<and> (\<forall>pre chunk rest fin. sent = Inr (pre @ (True, chunk) # rest, fin) \<longrightarrow>
          list_all (\<lambda>x. \<not> fst x) pre \<longrightarrow>
          map_option msg_content (placeholderOf (fst final))
            = Some (concat (chunkTexts (map snd pre))))
    \<and> (\<forall>items e. sent = Inr (items, Some e) \<longrightarrow> list_all (\<lambda>x. \<not> fst x) items \<longrightarrow>
          isAbortError e \<longrightarrow>
          chatSessions (fst final)
            = sessionsAfterLoop aid mid (Inr (map snd items, Some e)) placed
          \<and> map_option msg_content (placeholderOf (fst final))
              = Some (concat (chunkTexts (map snd items))))
    \<and> (\<forall>e. sent = Inl e \<longrightarrow> isAbortError e \<longrightarrow>
          chatSessions (fst final) = placed
          \<and> map_option msg_content (placeholderOf (fst final)) = Some [])"
proof -
  note h = assms(1,2,3)
  have settled: "snd final = None \<and> \<not> isLoading (fst final)"
    using submitPrompt_unfold[OF h, of prompt images history] assms(7) by simp
  have active: "activeChatId (fst final) = aid"
    using submitPrompt_unfold[OF h, of prompt images history] assms(7,8) by simp
  have p0: "placeholderIn aid placed = Some (modelMessage (env_now env))"
    unfolding assms(6,8) by (rule placeholderIn_withPlaceholder[OF assms(2)])
  have completed: "map_option msg_content (placeholderOf (fst final))
                     = Some (concat (chunkTexts chunks))"
    if "snd (streamResponse (env_sendMessageStream env) prompt images (env_abortedAtStart env))
          = Inr (chunks, None)" for chunks
    using placeholderOf_submitPrompt_completed[OF h that, of history] assms(7) by auto
  have failed: "chatSessions (fst final) = catchBlock aid mid e (sessionsAfterLoop aid mid response placed)"
    if "snd (streamResponse (env_sendMessageStream env) prompt images (env_abortedAtStart env))
          = response" "failureOf response = Some e" for response e
    using submitPrompt_failed[OF h that, of history] assms(6,7,8,9) by simp
  have error_block: "chatSessions (fst final)
            = patchActiveChat aid mid (SetContent (errorContent e))
                (sessionsAfterLoop aid mid response placed)
          \<and> map_option msg_content (placeholderOf (fst final)) = Some (errorContent e)
          \<and> sameExceptPlaceholder aid mid (sessionsAfterLoop aid mid response placed)
                (chatSessions (fst final))"
    if r: "snd (streamResponse (env_sendMessageStream env) prompt images (env_abortedAtStart env))
          = response" "failureOf response = Some e" and n: "\<not> isAbortError e" for response e
  proof -
    have c: "chatSessions (fst final)
            = patchActiveChat aid mid (SetContent (errorContent e))
                (sessionsAfterLoop aid mid response placed)"
      using failed[OF r] n by (simp add: catchBlock_def)
    have "map_option msg_content (placeholderOf (fst final)) = Some (errorContent e)"
      using placeholder_after_error[OF assms(2) n refl, of "env_now env" response history]
        failed[OF r] active
      unfolding placeholderOf_def assms(6,8,9) by simp
    with c show ?thesis by (simp add: sameExceptPlaceholder_patch)
  qed
  have c1: "chatSessions (fst final)
            = patchActiveChat aid mid (SetContent (errorContent requestFailedError)) placed
          \<and> map_option msg_content (placeholderOf (fst final))
              = Some (errorContent requestFailedError)
          \<and> sameExceptPlaceholder aid mid placed (chatSessions (fst final))"
    if "sent = Inl e" "\<not> isAbortError e" for e
  proof -
    have r: "snd (streamResponse (env_sendMessageStream env) prompt images (env_abortedAtStart env))
          = Inl requestFailedError"
      using streamResponse_request_failed[OF assms(4), of "env_sendMessageStream env" prompt images e]
        that assms(5) by simp
    have f: "failureOf (Inl requestFailedError) = Some requestFailedError"
      by (simp add: failureOf_def)
    have l: "sessionsAfterLoop aid mid (Inl requestFailedError) placed = placed"
      by (simp add: sessionsAfterLoop_def)
    show ?thesis
      using error_block[OF r f requestFailedError_not_abort] unfolding l .
  qed
  have c2: "chatSessions (fst final)
            = patchActiveChat aid mid (SetContent (errorContent e))
                (sessionsAfterLoop aid mid (Inr (map snd items, Some e)) placed)
          \<and> map_option msg_content (placeholderOf (fst final)) = Some (errorContent e)
          \<and> sameExceptPlaceholder aid mid
                (sessionsAfterLoop aid mid (Inr (map snd items, Some e)) placed)
                (chatSessions (fst final))"
    if "sent = Inr (items, Some e)" "list_all (\<lambda>x. \<not> fst x) items" "\<not> isAbortError e" for items e
  proof -
    have r: "snd (streamResponse (env_sendMessageStream env) prompt images (env_abortedAtStart env))
          = Inr (map snd items, Some e)"
      using streamResponse_sent[of "env_abortedAtStart env" "env_sendMessageStream env" prompt images
          items "Some e"] assms(4,5) that(1,2) wrappedStream_no_abort[of items "Some e"]
      by (simp add: list_all_iff)
    have f: "failureOf (Inr (map snd items, Some e)) = Some e"
      by (simp add: failureOf_def)
    show ?thesis by (rule error_block[OF r f that(3)])
  qed
  have c3: "map_option msg_content (placeholderOf (fst final))
            = Some (concat (chunkTexts (map snd pre)))"
    if "sent = Inr (pre @ (True, chunk) # rest, fin)" "list_all (\<lambda>x. \<not> fst x) pre"
    for pre chunk rest fin
  proof -
    have r: "snd (streamResponse (env_sendMessageStream env) prompt images (env_abortedAtStart env))
          = Inr (map snd pre, None)"
      using streamResponse_sent[of "env_abortedAtStart env" "env_sendMessageStream env" prompt images
          "pre @ (True, chunk) # rest" fin] assms(4,5) that wrappedStream_abort[of pre chunk rest fin]
      by (simp add: list_all_iff)
    show ?thesis by (rule completed[OF r])
  qed
  have c4: "chatSessions (fst final)
            = sessionsAfterLoop aid mid (Inr (map snd items, Some e)) placed
          \<and> map_option msg_content (placeholderOf (fst final))
              = Some (concat (chunkTexts (map snd items)))"
    if "sent = Inr (items, Some e)" "list_all (\<lambda>x. \<not> fst x) items" "isAbortError e" for items e
  proof -
    have r: "snd (streamResponse (env_sendMessageStream env) prompt images (env_abortedAtStart env))
          = Inr (map snd items, Some e)"
      using streamResponse_sent[of "env_abortedAtStart env" "env_sendMessageStream env" prompt images
          items "Some e"] assms(4,5) that(1,2) wrappedStream_no_abort[of items "Some e"]
      by (simp add: list_all_iff)
    have c: "chatSessions (fst final)
            = sessionsAfterLoop aid mid (Inr (map snd items, Some e)) placed"
      using failed[OF r, of e] that(3) by (simp add: catchBlock_def failureOf_def)
    have "placeholderIn aid (sessionsAfterLoop aid mid (Inr (map snd items, Some e)) placed)
        = Some ((modelMessage (env_now env))\<lparr>msg_content :=
                   concat (chunkTexts (consumedChunks (Inr (map snd items, Some e))))\<rparr>)"
      using placeholderIn_sessionsAfterLoop[OF p0, of mid "Inr (map snd items, Some e)"]
      by (simp add: assms(9) modelMessage_def)
    with c active show ?thesis by (simp add: placeholderOf_def consumedChunks_def)
  qed
  have c5: "chatSessions (fst final) = placed
          \<and> map_option msg_content (placeholderOf (fst final)) = Some []"
    if "sent = Inl e" "isAbortError e" for e
  proof -
    have r: "snd (streamResponse (env_sendMessageStream env) prompt images (env_abortedAtStart env))
          = Inr ([], None)"
      using streamResponse_request_failed[OF assms(4), of "env_sendMessageStream env" prompt images e]
        that assms(5) by simp
    have "chatSessions (fst final) = placed"
      using submitPrompt_unfold[OF h, of prompt images history] r assms(6,7)
      by (simp add: tryBlock_def attachSources_def)
    with completed[OF r] show ?thesis by (simp add: chunkTexts_def)
  qed
  from settled c1 c2 c3 c4 c5 show ?thesis by blast
qed

theorem generation_failure_outcome_witness:
  "\<not> isLoading twoChatStore \<and> activeChat twoChatStore = Some (newChat 5)
   \<and> truthy (env_apiKey failedRequestEnv) \<and> \<not> env_abortedAtStart failedRequestEnv
   \<and> env_sendMessageStream failedRequestEnv (requestParts ''Hi'' None)
       = Inl (JsError ''TypeError'' ''fetch failed'')
   \<and> \<not> isAbortError (JsError ''TypeError'' ''fetch failed'')
   \<and> map_option msg_content
         (placeholderOf (fst (submitPrompt failedRequestEnv ''Hi'' None (Some [userHi]) twoChatStore)))
       = Some (errorContent requestFailedError)
   \<and> errorContent requestFailedError = requestBlock
   \<and> chatSessions (fst (submitPrompt failedRequestEnv ''Hi'' None (Some [userHi]) twoChatStore))
       = [(newChat 5)\<lparr>chat_messages := [userHi, placeholderWith requestBlock []]\<rparr>, newChat 4]
   \<and> env_sendMessageStream failingEnv (requestParts ''Hi'' None)
       = Inr ([(False, textChunk ''Hel'')], Some (JsError ''TypeError'' ''network down''))
   \<and> list_all (\<lambda>x. \<not> fst x) [(False, textChunk ''Hel'')]
   \<and> \<not> isAbortError (JsError ''TypeError'' ''network down'')
   \<and> map_option msg_content
         (placeholderOf (fst (submitPrompt failingEnv ''Hi'' None (Some [userHi]) twoChatStore)))
       = Some (errorContent (JsError ''TypeError'' ''network down''))
   \<and> errorContent (JsError ''TypeError'' ''network down'') = errorBlock
   \<and> chatSessions (fst (submitPrompt failingEnv ''Hi'' None (Some [userHi]) twoChatStore))
       = [(newChat 5)\<lparr>chat_messages := [userHi, placeholderWith errorBlock []]\<rparr>, newChat 4]
   \<and> env_sendMessageStream lateErrorEnv (requestParts ''Hi'' None)
       = Inr ([(False, textChunk ''Hel'')] @ (True, textChunk ''lo!'') # [],
              Some (JsError ''TypeError'' ''network down''))
   \<and> map_option msg_content
         (placeholderOf (fst (submitPrompt lateErrorEnv ''Hi'' None (Some [userHi]) twoChatStore)))
       = Some ''Hel''
   \<and> chatSessions (fst (submitPrompt lateErrorEnv ''Hi'' None (Some [userHi]) twoChatStore))
       = [(newChat 5)\<lparr>chat_messages := [userHi, placeholderWith ''Hel'' []]\<rparr>, newChat 4]
   \<and> env_sendMessageStream abortErrorEnv (requestParts ''Hi'' None)
       = Inr ([(False, textChunk ''Hel'')], Some (JsError ''AbortError'' ''aborted''))
   \<and> isAbortError (JsError ''AbortError'' ''aborted'')
   \<and> map_option msg_content
         (placeholderOf (fst (submitPrompt abortErrorEnv ''Hi'' None (Some [userHi]) twoChatStore)))
       = Some ''Hel''"
proof -
  note r = twoChatStore_ready(1,2)
  have k: "truthy (env_apiKey failingEnv)" "truthy (env_apiKey lateErrorEnv)"
    "truthy (env_apiKey abortErrorEnv)"
    and nab: "\<not> env_abortedAtStart failingEnv" "\<not> env_abortedAtStart lateErrorEnv"
    "\<not> env_abortedAtStart abortErrorEnv"
    by (simp_all add: failingEnv_def lateErrorEnv_def abortErrorEnv_def streamingEnv_fields)
  have s1: "env_sendMessageStream failedRequestEnv (requestParts ''Hi'' None)
       = Inl (JsError ''TypeError'' ''fetch failed'')"
    by (simp add: failedRequestEnv_fields)
  have s2: "env_sendMessageStream failingEnv (requestParts ''Hi'' None)
       = Inr ([(False, textChunk ''Hel'')], Some (JsError ''TypeError'' ''network down''))"
    by (simp add: failingEnv_def streamingEnv_fields)
  have s3: "env_sendMessageStream lateErrorEnv (requestParts ''Hi'' None)
       = Inr ([(False, textChunk ''Hel'')] @ (True, textChunk ''lo!'') # [],
              Some (JsError ''TypeError'' ''network down''))"
    by (simp add: lateErrorEnv_def streamingEnv_fields)
  have s4: "env_sendMessageStream abortErrorEnv (requestParts ''Hi'' None)
       = Inr ([(False, textChunk ''Hel'')], Some (JsError ''AbortError'' ''aborted''))"
    by (simp add: abortErrorEnv_def streamingEnv_fields)
  have la: "list_all (\<lambda>x. \<not> fst x) [(False, textChunk ''Hel'')]" by simp
  have n1: "\<not> isAbortError (JsError ''TypeError'' ''fetch failed'')"
    and n2: "\<not> isAbortError (JsError ''TypeError'' ''network down'')"
    and n4: "isAbortError (JsError ''AbortError'' ''aborted'')"
    by (simp_all add: isAbortError_def)
  have b1: "errorContent requestFailedError = requestBlock"
    by (simp add: errorContent_def requestFailedError_def requestBlock_def)
  have b2: "errorContent (JsError ''TypeError'' ''network down'') = errorBlock"
    by (simp add: errorContent_def errorBlock_def)
  have tx: "concat (chunkTexts (map snd [(False, textChunk ''Hel'')])) = ''Hel''"
    by (simp add: chunkTexts_def textChunk_def)
  note t1 = generation_failure_outcome[where env = failedRequestEnv and s = twoChatStore
      and history = "Some [userHi]" and prompt = "''Hi''" and images = None,
      OF r failedRequestEnv_fields(2,3) refl refl refl refl refl]
  note t2 = generation_failure_outcome[where env = failingEnv and s = twoChatStore
      and history = "Some [userHi]" and prompt = "''Hi''" and images = None,
      OF r k(1) nab(1) refl refl refl refl refl]
  note t3 = generation_failure_outcome[where env = lateErrorEnv and s = twoChatStore
      and history = "Some [userHi]" and prompt = "''Hi''" and images = None,
      OF r k(2) nab(2) refl refl refl refl refl]
  note t4 = generation_failure_outcome[where env = abortErrorEnv and s = twoChatStore
      and history = "Some [userHi]" and prompt = "''Hi''" and images = None,
      OF r k(3) nab(3) refl refl refl refl refl]
  have c1: "map_option msg_content
         (placeholderOf (fst (submitPrompt failedRequestEnv ''Hi'' None (Some [userHi]) twoChatStore)))
       = Some (errorContent requestFailedError)"
    using t1[THEN conjunct2, THEN conjunct2, THEN conjunct1, rule_format, OF s1 n1] by simp
  have c2: "map_option msg_content
         (placeholderOf (fst (submitPrompt failingEnv ''Hi'' None (Some [userHi]) twoChatStore)))
       = Some (errorContent (JsError ''TypeError'' ''network down''))"
    using t2[THEN conjunct2, THEN conjunct2, THEN conjunct2, THEN conjunct1, rule_format,
        OF s2 la n2] by simp
  have c3: "map_option msg_content
         (placeholderOf (fst (submitPrompt lateErrorEnv ''Hi'' None (Some [userHi]) twoChatStore)))
       = Some ''Hel''"
    using t3[THEN conjunct2, THEN conjunct2, THEN conjunct2, THEN conjunct2, THEN conjunct1,
        rule_format, OF s3 la] tx by simp
  have c4: "map_option msg_content
         (placeholderOf (fst (submitPrompt abortErrorEnv ''Hi'' None (Some [userHi]) twoChatStore)))
       = Some ''Hel''"
    using t4[THEN conjunct2, THEN conjunct2, THEN conjunct2, THEN conjunct2, THEN conjunct2,
        THEN conjunct1, rule_format, OF s4 la n4] tx by simp
  show ?thesis
    using r failedRequestEnv_fields(2,3) s1 s2 s3 s4 la n1 n2 n4 b1 b2 c1 c2 c3 c4
      failedRequestEnv_final failingEnv_final lateErrorEnv_final
    by simp
qed

text \<open>
  C10. With the signal aborted on entry, \<^verbatim>\<open>streamResponse\<close> hands no request to the SDK
  and returns, without an error, a generator that yields nothing; a generation started by
  \<^verbatim>\<open>submitPrompt\<close> then settles without an error and the content of the placeholder is
  empty.
\<close>

theorem aborted_before_start_yields_nothing:
  "streamResponse sendMessageStream prompt images True = ([], Inr ([], None))
   \<and> (\<not> isLoading s \<longrightarrow> activeChat s = Some chat0 \<longrightarrow> truthy (env_apiKey env) \<longrightarrow>
        env_abortedAtStart env \<longrightarrow>
        snd (submitPrompt env prompt images history s) = None
        \<and> (\<exists>m. placeholderOf (fst (submitPrompt env prompt images history s)) = Some m
               \<and> msg_id m = msg_id (modelMessage (env_now env)) \<and> msg_content m = []))"
proof -
  have a: "streamResponse sendMessageStream prompt images True = ([], Inr ([], None))"
    by (simp add: streamResponse_def)
  have b: "snd (submitPrompt env prompt images history s) = None
        \<and> (\<exists>m. placeholderOf (fst (submitPrompt env prompt images history s)) = Some m
               \<and> msg_id m = msg_id (modelMessage (env_now env)) \<and> msg_content m = [])"
    if h: "\<not> isLoading s" "activeChat s = Some chat0" "truthy (env_apiKey env)"
      "env_abortedAtStart env"
  proof -
    have r: "snd (streamResponse (env_sendMessageStream env) prompt images (env_abortedAtStart env))
              = Inr ([], None)"
      using h(4) by (simp add: streamResponse_def)
    show ?thesis
      using placeholderOf_submitPrompt_completed[OF h(1,2,3) r, of history]
        submitPrompt_unfold[OF h(1,2,3), of prompt images history]
      by (auto simp: chunkTexts_def)
  qed
  from a b show ?thesis by blast
qed

theorem aborted_before_start_yields_nothing_witness:
  "\<not> isLoading oneChatStore \<and> activeChat oneChatStore = Some (newChat 4)
   \<and> truthy (env_apiKey abortedEnv) \<and> env_abortedAtStart abortedEnv
   \<and> streamResponse (env_sendMessageStream abortedEnv) ''Hi'' None True = ([], Inr ([], None))
   \<and> snd (submitPrompt abortedEnv ''Hi'' None (Some []) oneChatStore) = None
   \<and> (\<exists>m. placeholderOf (fst (submitPrompt abortedEnv ''Hi'' None (Some []) oneChatStore)) = Some m
          \<and> msg_id m = msg_id (modelMessage (env_now abortedEnv)) \<and> msg_content m = [])"
proof -
  have h3: "truthy (env_apiKey abortedEnv)" and h4: "env_abortedAtStart abortedEnv"
    by (simp_all add: abortedEnv_def streamingEnv_def truthy_def)
  note t = aborted_before_start_yields_nothing[of "env_sendMessageStream abortedEnv" "''Hi''" None
      oneChatStore "newChat 4" abortedEnv "Some []"]
  have a: "streamResponse (env_sendMessageStream abortedEnv) ''Hi'' None True = ([], Inr ([], None))"
    using t by (rule conjunct1)
  have b: "snd (submitPrompt abortedEnv ''Hi'' None (Some []) oneChatStore) = None
   \<and> (\<exists>m. placeholderOf (fst (submitPrompt abortedEnv ''Hi'' None (Some []) oneChatStore)) = Some m
          \<and> msg_id m = msg_id (modelMessage (env_now abortedEnv)) \<and> msg_content m = [])"
    using t[THEN conjunct2, rule_format, OF oneChatStore_ready(1,2) h3 h4] .
  show ?thesis using oneChatStore_ready(1,2) h3 h4 a b by simp
qed
section \<open>The live session\<close>

lemma merge_into_open_entry:
  assumes "role \<noteq> TOOL" "openEntry role prev"
  shows "addOrUpdateTranscription now role text False prev
           = butlast prev @ [(last prev)\<lparr>tr_text := tr_text (last prev) @ text\<rparr>]"
  using assms by (simp add: addOrUpdateTranscription_def openEntry_def)

lemma transcribeAll_open:
  assumes "role \<noteq> TOOL" "tr_role e = role" "\<not> tr_isFinal e"
  shows "transcribeAll role updates (prev @ [e])
           = prev @ [e\<lparr>tr_text := tr_text e @ concat (map snd updates)\<rparr>]"
  using assms
proof (induction updates arbitrary: e)
  case Nil
  then show ?case by simp
next
  case (Cons u updates)
  obtain now body where u: "u = (now, body)" by (cases u)
  have "addOrUpdateTranscription now role body False (prev @ [e])
          = prev @ [e\<lparr>tr_text := tr_text e @ body\<rparr>]"
    using Cons.prems by (simp add: addOrUpdateTranscription_def)
  then show ?case
    using Cons.IH[of "e\<lparr>tr_text := tr_text e @ body\<rparr>"] Cons.prems u by simp
qed

lemma transcribeAll_new:
  assumes "role \<noteq> TOOL" "\<not> openEntry role prev" "trim text \<noteq> []"
  shows "transcribeAll role ((now, text) # updates) prev
           = prev @ [\<lparr>tr_id = toString now, tr_role = role,
                       tr_text = text @ concat (map snd updates), tr_isFinal = False\<rparr>]"
proof -
  have "addOrUpdateTranscription now role text False prev
          = prev @ [\<lparr>tr_id = toString now, tr_role = role, tr_text = text, tr_isFinal = False\<rparr>]"
    using assms by (auto simp: addOrUpdateTranscription_def openEntry_def)
  then show ?thesis
    using transcribeAll_open[OF assms(1), of
        "\<lparr>tr_id = toString now, tr_role = role, tr_text = text, tr_isFinal = False\<rparr>" updates prev]
    by simp
qed

lemma finalizeAll_final: "\<forall>t \<in> set (finalizeAll prev). tr_isFinal t"
  by (auto simp: finalizeAll_def)

lemma finalizeAll_fields:
  "map tr_id (finalizeAll prev) = map tr_id prev"
  "map tr_role (finalizeAll prev) = map tr_role prev"
  "map tr_text (finalizeAll prev) = map tr_text prev"
  by (simp_all add: finalizeAll_def comp_def)

lemma finalizeAll_append: "finalizeAll (xs @ ys) = finalizeAll xs @ finalizeAll ys"
  by (simp add: finalizeAll_def)

lemma transcriptions_userSays:
  "transcriptions (onmessage now currentTime (userSays text) st)
     = addOrUpdateTranscription now USER text False (transcriptions st)"
  by (simp add: onmessage_def userSays_def emptyMessage_def)

lemma transcriptions_turnComplete:
  "transcriptions (onmessage now currentTime turnCompleteMessage st)
     = finalizeAll (transcriptions st)"
  by (simp add: onmessage_def turnCompleteMessage_def emptyMessage_def)

lemma transcribeAll_one_entry:
  assumes "role \<noteq> TOOL" "\<not> openEntry role prev"
  shows "transcribeAll role updates prev = prev
         \<or> (\<exists>e. transcribeAll role updates prev = prev @ [e] \<and> tr_role e = role
                  \<and> \<not> tr_isFinal e)"
  using assms
proof (induction updates)
  case Nil
  then show ?case by simp
next
  case (Cons u updates)
  obtain now body where u: "u = (now, body)" by (cases u)
  show ?case
  proof (cases "trim body = []")
    case True
    then have "addOrUpdateTranscription now role body False prev = prev"
      using Cons.prems by (auto simp: addOrUpdateTranscription_def openEntry_def)
    then show ?thesis using Cons u by simp
  next
    case False
    then show ?thesis
      using transcribeAll_new[OF Cons.prems False, of now updates] u by simp
  qed
qed

lemma trim_hel: "trim ''hel'' \<noteq> []"
proof -
  have a: "stripSpaces wideSpaces ''hel'' = ''hel''"
    by (subst stripSpaces.simps) (simp add: spaceWidth_def isWhiteSpace_def wideSpaces_def)
  have b: "stripSpaces (map rev wideSpaces) ''leh'' = ''leh''"
    by (subst stripSpaces.simps) (simp add: spaceWidth_def isWhiteSpace_def wideSpaces_def)
  show ?thesis using a b by (simp add: trim_def)
qed

text \<open>
  C5. A non-final update of a role other than the tool role is merged into the last entry
  when that entry has the same role and is not final. A run of non-final updates of one
  role that starts with a non-blank text on a transcript without such an open entry gives,
  once the turn is complete, the finalized transcript followed by one finalized entry with
  the concatenated text. The turn-complete update makes every entry final and keeps the
  texts. For the arrivals user "hel", user "lo", turn complete, the transcript is the
  finalized earlier transcript followed by exactly one final user entry "hello". Whatever
  the texts, such a run adds at most one entry to the transcript.
\<close>

theorem transcript_updates_coalesce:
  "(role \<noteq> TOOL \<longrightarrow> openEntry role prev \<longrightarrow>
      addOrUpdateTranscription now role text False prev
        = butlast prev @ [(last prev)\<lparr>tr_text := tr_text (last prev) @ text\<rparr>])
   \<and> (role \<noteq> TOOL \<longrightarrow> \<not> openEntry role prev \<longrightarrow> trim text \<noteq> [] \<longrightarrow>
        finalizeAll (transcribeAll role ((now, text) # updates) prev)
          = finalizeAll prev @ [\<lparr>tr_id = toString now, tr_role = role,
                                   tr_text = text @ concat (map snd updates), tr_isFinal = True\<rparr>])
   \<and> (\<forall>t \<in> set (finalizeAll prev). tr_isFinal t)
   \<and> map tr_text (finalizeAll prev) = map tr_text prev
   \<and> (\<not> openEntry USER (transcriptions st) \<longrightarrow>
        transcriptions
          (runMessages [(n1, c1, userSays ''hel''), (n2, c2, userSays ''lo''),
                        (n3, c3, turnCompleteMessage)] st)
          = finalizeAll (transcriptions st)
            @ [\<lparr>tr_id = toString n1, tr_role = USER, tr_text = ''hello'', tr_isFinal = True\<rparr>])
   \<and> (role \<noteq> TOOL \<longrightarrow> \<not> openEntry role prev \<longrightarrow>
        transcribeAll role updates prev = prev
        \<or> (\<exists>e. transcribeAll role updates prev = prev @ [e] \<and> tr_role e = role
                 \<and> \<not> tr_isFinal e))"
proof -
  have new: "finalizeAll (transcribeAll role ((now, body) # updates) prev)
          = finalizeAll prev @ [\<lparr>tr_id = toString now, tr_role = role,
                                   tr_text = body @ concat (map snd updates), tr_isFinal = True\<rparr>]"
    if "role \<noteq> TOOL" "\<not> openEntry role prev" "trim body \<noteq> []" for role now body updates prev
    using transcribeAll_new[OF that] by (simp add: finalizeAll_append) (simp add: finalizeAll_def)
  have hello: "transcriptions
          (runMessages [(n1, c1, userSays ''hel''), (n2, c2, userSays ''lo''),
                        (n3, c3, turnCompleteMessage)] st)
          = finalizeAll (transcriptions st)
            @ [\<lparr>tr_id = toString n1, tr_role = USER, tr_text = ''hello'', tr_isFinal = True\<rparr>]"
    if "\<not> openEntry USER (transcriptions st)"
  proof -
    have "transcriptions
          (runMessages [(n1, c1, userSays ''hel''), (n2, c2, userSays ''lo''),
                        (n3, c3, turnCompleteMessage)] st)
        = finalizeAll (transcribeAll USER [(n1, ''hel''), (n2, ''lo'')] (transcriptions st))"
      by (simp add: transcriptions_userSays transcriptions_turnComplete)
    also have "\<dots> = finalizeAll (transcriptions st)
            @ [\<lparr>tr_id = toString n1, tr_role = USER, tr_text = ''hel'' @ concat (map snd [(n2, ''lo'')]),
                 tr_isFinal = True\<rparr>]"
      by (rule new) (simp_all add: that trim_hel)
    finally show ?thesis by simp
  qed
  show ?thesis
    using merge_into_open_entry new hello finalizeAll_final finalizeAll_fields(3)
      transcribeAll_one_entry
    by blast
qed

theorem transcript_updates_coalesce_witness:
  "USER \<noteq> TOOL \<and> openEntry USER [helEntry ''hel'' False]
   \<and> addOrUpdateTranscription 6 USER ''lo'' False [helEntry ''hel'' False]
        = [helEntry ''hello'' False]
   \<and> \<not> openEntry USER (transcriptions liveStart) \<and> trim ''hel'' \<noteq> []
   \<and> finalizeAll (transcribeAll USER [(5, ''hel''), (6, ''lo'')] (transcriptions liveStart))
        = transcriptions liveStart @ [helEntry ''hello'' True]
   \<and> list_all tr_isFinal (finalizeAll [helEntry ''hello'' False])
   \<and> transcriptions
        (runMessages [(5, 0, userSays ''hel''), (6, 1, userSays ''lo''), (7, 2, turnCompleteMessage)]
           liveStart)
        = transcriptions liveStart @ [helEntry ''hello'' True]
   \<and> transcriptions
        (runMessages [(5, 0, userSays ''hel''), (6, 1, userSays ''lo''), (7, 2, turnCompleteMessage)]
           (liveStart\<lparr>transcriptions := []\<rparr>))
        = [helEntry ''hello'' True]"
proof -
  have r: "USER \<noteq> TOOL" by simp
  have o: "openEntry USER [helEntry ''hel'' False]"
    by (simp add: openEntry_def helEntry_def)
  have n: "\<not> openEntry USER (transcriptions liveStart)"
    "\<not> openEntry USER (transcriptions (liveStart\<lparr>transcriptions := []\<rparr>))"
    by (simp_all add: openEntry_def liveStart_def)
  have fin: "finalizeAll (transcriptions liveStart) = transcriptions liveStart"
    by (simp add: finalizeAll_def liveStart_def)
  have five: "toString 5 = ''5''" by (simp add: toString_eval)
  note t1 = transcript_updates_coalesce[of USER "[helEntry ''hel'' False]" 6 "''lo''" "[]" liveStart 5 0 6 1 7 2]
  note t2 = transcript_updates_coalesce[of USER "transcriptions liveStart" 5 "''hel''" "[(6, ''lo'')]"
      "liveStart\<lparr>transcriptions := []\<rparr>" 5 0 6 1 7 2]
  have a: "addOrUpdateTranscription 6 USER ''lo'' False [helEntry ''hel'' False]
        = [helEntry ''hello'' False]"
    using t1[THEN conjunct1, rule_format, OF r o] by (simp add: helEntry_def)
  have b: "finalizeAll (transcribeAll USER [(5, ''hel''), (6, ''lo'')] (transcriptions liveStart))
        = transcriptions liveStart @ [helEntry ''hello'' True]"
    using t2[THEN conjunct2, THEN conjunct1, rule_format, OF r n(1) trim_hel]
    by (simp add: fin five helEntry_def)
  have c: "\<forall>t \<in> set (finalizeAll [helEntry ''hello'' False]). tr_isFinal t"
    using transcript_updates_coalesce[of USER "[helEntry ''hello'' False]" 6 "''lo''" "[]" liveStart 5 0 6 1 7 2]
    by blast
  have d: "transcriptions
        (runMessages [(5, 0, userSays ''hel''), (6, 1, userSays ''lo''), (7, 2, turnCompleteMessage)]
           liveStart)
        = transcriptions liveStart @ [helEntry ''hello'' True]"
    using t1[THEN conjunct2, THEN conjunct2, THEN conjunct2, THEN conjunct2, THEN conjunct1,
        rule_format, OF n(1)]
    by (simp add: fin five helEntry_def)
  have e: "transcriptions
        (runMessages [(5, 0, userSays ''hel''), (6, 1, userSays ''lo''), (7, 2, turnCompleteMessage)]
           (liveStart\<lparr>transcriptions := []\<rparr>))
        = [helEntry ''hello'' True]"
    using t2[THEN conjunct2, THEN conjunct2, THEN conjunct2, THEN conjunct2, THEN conjunct1,
        rule_format, OF n(2)]
    by (simp add: five helEntry_def finalizeAll_def)
  show ?thesis using r o n(1) trim_hel a b c d e by (simp add: list_all_iff)
qed

subsection \<open>Playback\<close>

lemma playChunk_fields:
  "startCalls (playChunk currentTime frameCount st)
     = startCalls st @ [(sourcesCreated st, max (nextStartTime st) currentTime)]"
  "nextStartTime (playChunk currentTime frameCount st)
     = max (nextStartTime st) currentTime + duration frameCount"
  "sources (playChunk currentTime frameCount st) = sources st @ [sourcesCreated st]"
  "sourcesCreated (playChunk currentTime frameCount st) = Suc (sourcesCreated st)"
  "stopCalls (playChunk currentTime frameCount st) = stopCalls st"
  by (simp_all add: playChunk_def Let_def)

lemma toolCallStep_audio:
  "nextStartTime (toolCallStep now calls st) = nextStartTime st"
  "sources (toolCallStep now calls st) = sources st"
  "sourcesCreated (toolCallStep now calls st) = sourcesCreated st"
  "startCalls (toolCallStep now calls st) = startCalls st"
  "stopCalls (toolCallStep now calls st) = stopCalls st"
  by (simp_all add: toolCallStep_def)

lemma onmessage_nextStartTime:
  "nextStartTime (onmessage now currentTime message st)
     = (if interrupted message then 0
        else case modelAudio message of
               Some n \<Rightarrow> max (nextStartTime st) currentTime + duration n
             | None \<Rightarrow> nextStartTime st)"
  by (cases "toolCall message"; cases "inputTranscription message";
      cases "outputTranscription message"; cases "turnComplete message";
      cases "modelAudio message"; cases "interrupted message")
     (simp_all add: onmessage_def Let_def playChunk_fields toolCallStep_audio interruptStep_def)

lemma onmessage_startCalls:
  "startCalls (onmessage now currentTime message st)
     = (case modelAudio message of
          Some n \<Rightarrow> startCalls st @ [(sourcesCreated st, max (nextStartTime st) currentTime)]
        | None \<Rightarrow> startCalls st)"
  by (cases "toolCall message"; cases "inputTranscription message";
      cases "outputTranscription message"; cases "turnComplete message";
      cases "modelAudio message"; cases "interrupted message")
     (simp_all add: onmessage_def Let_def playChunk_fields toolCallStep_audio interruptStep_def)

lemma onmessage_sourcesCreated:
  "sourcesCreated (onmessage now currentTime message st)
     = (case modelAudio message of Some n \<Rightarrow> Suc (sourcesCreated st) | None \<Rightarrow> sourcesCreated st)"
  by (cases "toolCall message"; cases "inputTranscription message";
      cases "outputTranscription message"; cases "turnComplete message";
      cases "modelAudio message"; cases "interrupted message")
     (simp_all add: onmessage_def Let_def playChunk_fields toolCallStep_audio interruptStep_def)

lemma onmessage_sources:
  "sources (onmessage now currentTime message st)
     = (if interrupted message then []
        else case modelAudio message of
               Some n \<Rightarrow> sources st @ [sourcesCreated st] | None \<Rightarrow> sources st)"
  by (cases "toolCall message"; cases "inputTranscription message";
      cases "outputTranscription message"; cases "turnComplete message";
      cases "modelAudio message"; cases "interrupted message")
     (simp_all add: onmessage_def Let_def playChunk_fields toolCallStep_audio interruptStep_def)

lemma onmessage_stopCalls:
  "stopCalls (onmessage now currentTime message st)
     = (if interrupted message
        then stopCalls st @ sources st
             @ (case modelAudio message of Some n \<Rightarrow> [sourcesCreated st] | None \<Rightarrow> [])
        else stopCalls st)"
  by (cases "toolCall message"; cases "inputTranscription message";
      cases "outputTranscription message"; cases "turnComplete message";
      cases "modelAudio message"; cases "interrupted message")
     (simp_all add: onmessage_def Let_def playChunk_fields toolCallStep_audio interruptStep_def)

lemmas onmessage_playback =
  onmessage_nextStartTime onmessage_startCalls onmessage_sourcesCreated onmessage_sources
  onmessage_stopCalls

lemma runMessages_no_audio:
  assumes "\<forall>x \<in> set msgs. modelAudio (snd (snd x)) = None" "nextStartTime st = 0"
  shows "nextStartTime (runMessages msgs st) = 0 \<and> startCalls (runMessages msgs st) = startCalls st
         \<and> sourcesCreated (runMessages msgs st) = sourcesCreated st"
  using assms
proof (induction msgs arbitrary: st)
  case Nil
  then show ?case by simp
next
  case (Cons x msgs)
  obtain now currentTime message where x: "x = (now, currentTime, message)" by (cases x)
  with Cons.prems have na: "modelAudio message = None" by simp
  have "nextStartTime (onmessage now currentTime message st) = 0"
    using na Cons.prems(2) by (simp add: onmessage_nextStartTime)
  with Cons.IH[of "onmessage now currentTime message st"] Cons.prems(1) x na
  show ?case by (simp add: onmessage_startCalls onmessage_sourcesCreated)
qed

lemma duration_one: "duration 24000 = 1"
  by (simp add: duration_def)

text \<open>
  C6, as stated, fails: the second chunk arrives five seconds after the first, which lasts
  one second, and starts at the clock reading, not one second after the first.
\<close>

theorem late_chunk_counterexample:
  "startCalls (onmessage 2 5 (audioMessage 12000) (onmessage 1 0 (audioMessage 24000) liveStart))
     = [(0, 0), (1, 5)]
   \<and> snd (startCalls (onmessage 2 5 (audioMessage 12000)
                        (onmessage 1 0 (audioMessage 24000) liveStart)) ! 1)
       \<noteq> snd (startCalls (onmessage 2 5 (audioMessage 12000)
                            (onmessage 1 0 (audioMessage 24000) liveStart)) ! 0) + 1"
  by (simp add: onmessage_startCalls onmessage_nextStartTime onmessage_sourcesCreated
        audioMessage_def emptyMessage_def liveStart_def duration_def)

text \<open>
  C6, amended. The first of two chunks without an interruption in between starts at the
  greater of the cursor and the clock; the second starts at the greater of the clock and
  the scheduled end of the first. If the first lasts one second (24000 frames) and the
  second arrives no later than the scheduled end of the first, the second starts exactly
  one second after the start of the first.
\<close>

theorem chunk_starts_at_clock_or_previous_end:
  assumes "modelAudio m1 = Some frames1" "\<not> interrupted m1" "modelAudio m2 = Some frames2"
    and "start1 = max (nextStartTime st) t1"
  shows "startCalls (onmessage now2 t2 m2 (onmessage now1 t1 m1 st))
           = startCalls st @ [(sourcesCreated st, start1),
                               (Suc (sourcesCreated st), max (start1 + duration frames1) t2)]
         \<and> (frames1 = 24000 \<longrightarrow> t2 \<le> start1 + 1 \<longrightarrow>
              startCalls (onmessage now2 t2 m2 (onmessage now1 t1 m1 st))
                = startCalls st @ [(sourcesCreated st, start1),
                                    (Suc (sourcesCreated st), start1 + 1)])"
proof -
  let ?st1 = "onmessage now1 t1 m1 st"
  have s1: "startCalls ?st1 = startCalls st @ [(sourcesCreated st, start1)]"
    "nextStartTime ?st1 = start1 + duration frames1" "sourcesCreated ?st1 = Suc (sourcesCreated st)"
    using assms(1,2,4) by (simp_all add: onmessage_playback)
  have "startCalls (onmessage now2 t2 m2 ?st1)
      = startCalls ?st1 @ [(sourcesCreated ?st1, max (nextStartTime ?st1) t2)]"
    using assms(3) by (simp add: onmessage_startCalls)
  then have g: "startCalls (onmessage now2 t2 m2 ?st1)
           = startCalls st @ [(sourcesCreated st, start1),
                               (Suc (sourcesCreated st), max (start1 + duration frames1) t2)]"
    using s1 by simp
  have "max (start1 + duration frames1) t2 = start1 + 1"
    if "frames1 = 24000" "t2 \<le> start1 + 1"
    using that by (simp add: duration_one max_def)
  with g show ?thesis by simp
qed

theorem chunk_starts_at_clock_or_previous_end_witness:
  "modelAudio (audioMessage 24000) = Some 24000 \<and> \<not> interrupted (audioMessage 24000)
   \<and> modelAudio (audioMessage 12000) = Some 12000
   \<and> (1 / 4 :: rat) \<le> max (nextStartTime liveStart) 0 + 1
   \<and> startCalls (onmessage 2 (1 / 4) (audioMessage 12000)
                    (onmessage 1 0 (audioMessage 24000) liveStart))
        = [(0, 0), (1, 1)]"
proof -
  have h1: "modelAudio (audioMessage 24000) = Some 24000"
    and h2: "\<not> interrupted (audioMessage 24000)"
    and h3: "modelAudio (audioMessage 12000) = Some 12000"
    by (simp_all add: audioMessage_def emptyMessage_def)
  have h4: "(1 / 4 :: rat) \<le> max (nextStartTime liveStart) 0 + 1"
    by (simp add: liveStart_def)
  note t = chunk_starts_at_clock_or_previous_end[OF h1 h2 h3 refl,
      where st = liveStart and ?t1.0 = 0 and ?t2.0 = "1 / 4" and ?now1.0 = 1 and ?now2.0 = 2]
  have "startCalls (onmessage 2 (1 / 4) (audioMessage 12000)
                    (onmessage 1 0 (audioMessage 24000) liveStart))
        = startCalls liveStart @ [(sourcesCreated liveStart, max (nextStartTime liveStart) 0),
             (Suc (sourcesCreated liveStart), max (nextStartTime liveStart) 0 + 1)]"
    using t[THEN conjunct2, rule_format, OF refl h4] .
  then show ?thesis using h1 h2 h3 h4 by (simp add: liveStart_def)
qed

text \<open>
  C7. A message with the interrupted flag stops every source in the set (and a source that
  the same message has just started), empties the set and puts the cursor at zero. After
  any messages without audio, the next chunk, arriving at a clock reading \<open>t\<close> that is not
  negative, starts at \<open>t\<close>: at offset zero from the audio clock, whatever the cursor was
  before the interruption.
\<close>

theorem interrupted_stops_sources_and_resets_cursor:
  assumes "interrupted mi"
    and "\<forall>x \<in> set between. modelAudio (snd (snd x)) = None"
    and "modelAudio ma = Some frames" and "0 \<le> t"
    and "st1 = onmessage now1 t1 mi st" and "st2 = runMessages between st1"
  shows "sources st1 = [] \<and> nextStartTime st1 = 0
    \<and> stopCalls st1
         = stopCalls st @ sources st
           @ (case modelAudio mi of Some n \<Rightarrow> [sourcesCreated st] | None \<Rightarrow> [])
    \<and> set (sources st) \<subseteq> set (stopCalls st1)
    \<and> startCalls (onmessage now3 t ma st2) = startCalls st1 @ [(sourcesCreated st1, t)]"
proof -
  have i: "sources st1 = []" "nextStartTime st1 = 0"
    "stopCalls st1 = stopCalls st @ sources st
           @ (case modelAudio mi of Some n \<Rightarrow> [sourcesCreated st] | None \<Rightarrow> [])"
    unfolding assms(5) using assms(1) by (simp_all add: onmessage_playback)
  have b: "nextStartTime st2 = 0" "startCalls st2 = startCalls st1"
    "sourcesCreated st2 = sourcesCreated st1"
    unfolding assms(6) using runMessages_no_audio[OF assms(2) i(2)] by simp_all
  have "startCalls (onmessage now3 t ma st2)
      = startCalls st2 @ [(sourcesCreated st2, max (nextStartTime st2) t)]"
    using assms(3) by (simp add: onmessage_startCalls)
  then have "startCalls (onmessage now3 t ma st2) = startCalls st1 @ [(sourcesCreated st1, t)]"
    using b assms(4) by (simp add: max_def)
  with i show ?thesis by auto
qed

theorem interrupted_stops_sources_and_resets_cursor_witness:
  "interrupted interruptedMessage
   \<and> list_all (\<lambda>x. modelAudio (snd (snd x)) = None) [(3, 5 / 8, userSays ''wait'')]
   \<and> modelAudio (audioMessage 12000) = Some 12000 \<and> (0::rat) \<le> 3 / 4
   \<and> sources playingState = [0] \<and> nextStartTime playingState = 1
   \<and> sources (onmessage 2 (1 / 2) interruptedMessage playingState) = []
   \<and> nextStartTime (onmessage 2 (1 / 2) interruptedMessage playingState) = 0
   \<and> stopCalls (onmessage 2 (1 / 2) interruptedMessage playingState) = [0]
   \<and> startCalls (onmessage 4 (3 / 4) (audioMessage 12000)
                    (runMessages [(3, 5 / 8, userSays ''wait'')]
                       (onmessage 2 (1 / 2) interruptedMessage playingState)))
        = [(0, 0), (1, 3 / 4)]"
proof -
  have h1: "interrupted interruptedMessage"
    by (simp add: interruptedMessage_def emptyMessage_def)
  have h2: "\<forall>x \<in> set [(3, 5 / 8, userSays ''wait'')]. modelAudio (snd (snd x)) = None"
    by (simp add: userSays_def emptyMessage_def)
  have h3: "modelAudio (audioMessage 12000) = Some 12000"
    by (simp add: audioMessage_def emptyMessage_def)
  have h4: "(0::rat) \<le> 3 / 4" by simp
  have p: "sources playingState = [0]" "nextStartTime playingState = 1"
    "stopCalls playingState = []" "startCalls playingState = [(0, 0)]"
    "sourcesCreated playingState = 1"
    by (simp_all add: playingState_def onmessage_playback audioMessage_def emptyMessage_def
          liveStart_def duration_def)
  have nm: "modelAudio interruptedMessage = None"
    by (simp add: interruptedMessage_def emptyMessage_def)
  note t = interrupted_stops_sources_and_resets_cursor[OF h1 h2 h3 h4 refl refl,
      where st = playingState and ?now1.0 = 2 and ?t1.0 = "1 / 2" and ?now3.0 = 4]
  have a: "sources (onmessage 2 (1 / 2) interruptedMessage playingState) = []"
    and b: "nextStartTime (onmessage 2 (1 / 2) interruptedMessage playingState) = 0"
    using t by simp_all
  have c: "stopCalls (onmessage 2 (1 / 2) interruptedMessage playingState) = [0]"
    using t[THEN conjunct2, THEN conjunct2, THEN conjunct1] p nm by simp
  have d: "startCalls (onmessage 4 (3 / 4) (audioMessage 12000)
                    (runMessages [(3, 5 / 8, userSays ''wait'')]
                       (onmessage 2 (1 / 2) interruptedMessage playingState)))
        = [(0, 0), (1, 3 / 4)]"
    using t[THEN conjunct2, THEN conjunct2, THEN conjunct2, THEN conjunct2] p nm
    by (simp add: onmessage_startCalls onmessage_sourcesCreated)
  show ?thesis using h1 h2 h3 h4 p(1,2) a b c d by simp
qed

end
